theory Spec2Isabelle
  imports Complex_Main
begin

section \<open>The TwitchPlayer component of foam-player\<close>

text \<open>
  The development embeds \<^verbatim>\<open>src/components/TwitchPlayer.tsx\<close>: the React component that
  loads the Twitch embed script, owns one player instance, bridges the instance's events to
  component state and host callbacks, exposes an imperative handle and drives the
  auto-hiding controls overlay.

  The component lives in an environment that the source only talks to: the browser page
  (the \<^verbatim>\<open>window.Twitch\<close> global, \<^verbatim>\<open>document.head\<close>, the clock, the timer queue), the
  Twitch SDK (constructor and instance methods) and the host's callback props. The
  environment is part of the state below; whatever the SDK decides on its own (whether
  a call throws, which values its getters hold) is a parameter of type \<open>sdk\<close>.
  An exception that escapes a handler of the component is the value \<open>Inl\<close>.
\<close>

subsection \<open>Props, options and the SDK instance\<close>

text \<open>\<^verbatim>\<open>width?: number | string\<close>\<close>

datatype dimension = NumberDim real | StringDim string

text \<open>\<^verbatim>\<open>interface TwitchPlayerOptions\<close>, as the component fills it (width and height are
  always passed: the props default to \<^verbatim>\<open>"100%"\<close>).\<close>

record TwitchPlayerOptions =
  opt_channel :: "string option"
  opt_video :: "string option"
  opt_collection :: "string option"
  opt_width :: dimension
  opt_height :: dimension

text \<open>\<^verbatim>\<open>interface TwitchPlayerProps\<close>. A callback prop is host code: the model keeps whether
  it was supplied, and records each invocation in the host log.\<close>

record TwitchPlayerProps =
  channel :: "string option"
  video :: "string option"
  collection :: "string option"
  width :: "dimension option"
  height :: "dimension option"
  onReady :: bool
  onPlay :: bool
  onPause :: bool
  onEnded :: bool
  onSeek :: bool

datatype host_call = OnReady | OnPlay | OnPause | OnEnded | OnSeek real

text \<open>The methods of \<^verbatim>\<open>TwitchPlayerInstance\<close> that the component calls.\<close>

datatype sdk_call =
    Play | Pause | Seek real | SetChannel string | SetVideo string "real option"
  | GetMuted | SetMuted bool | GetVolume | SetVolume real
  | GetChannel | GetCurrentTime | GetDuration | Destroy

text \<open>What the getters of an instance answer. The SDK owns these values.\<close>

record playback =
  sdk_volume :: real
  sdk_muted :: bool
  sdk_currentTime :: real
  sdk_duration :: real
  sdk_channel :: string

text \<open>An instance as the component can see it: the arguments of its constructor, the
  events a listener was registered for together with the props those listeners close over,
  the method calls it received, and whether \<^verbatim>\<open>destroy()\<close> was called.\<close>

record TwitchPlayerInstance =
  elementId :: string
  options :: TwitchPlayerOptions
  handlers :: "string list"
  captured :: TwitchPlayerProps
  calls :: "sdk_call list"
  destroyed :: bool
  playback :: playback

text \<open>The SDK's own behaviour: \<open>Player\<close> is the constructor (\<open>None\<close> when it throws),
  the other two say when \<^verbatim>\<open>addEventListener\<close> and an instance method throw.\<close>

record sdk =
  Player :: "string \<Rightarrow> TwitchPlayerOptions \<Rightarrow> playback option"
  addEventListener_throws :: "string \<Rightarrow> bool"
  method_throws :: "TwitchPlayerInstance \<Rightarrow> sdk_call \<Rightarrow> bool"

datatype exn = TypeError | SdkError

subsection \<open>Component state and page\<close>

text \<open>A script element appended to \<^verbatim>\<open>document.head\<close>; its \<^verbatim>\<open>onload\<close> handler is the
  \<^verbatim>\<open>loadTwitchPlayer\<close> closure of the effect run that created it.\<close>

record script =
  src :: string
  onload_props :: TwitchPlayerProps
  settled :: bool

datatype lifecycle = NotMounted | Mounted | Unmounted

text \<open>The \<^verbatim>\<open>useState\<close> values as one render of the component sees them. Everything a render
  builds closes over these values: the JSX it returns, \<^verbatim>\<open>handlePlayPause\<close>, and the methods
  of the imperative handle (which is rebuilt when \<^verbatim>\<open>isPlayerReady\<close> or \<^verbatim>\<open>isPaused\<close> differ
  from the previous render, so its methods always hold the values of the last render).\<close>

record rendering =
  shown_isLoading :: bool
  shown_error :: "string option"
  shown_isPlayerReady :: bool
  shown_isPaused :: bool
  shown_showControls :: bool

record state =
  phase :: lifecycle
  props :: TwitchPlayerProps
  rendered :: rendering
  containerRef :: "string option"
  playerRef :: "nat option"
  isLoading :: bool
  error :: "string option"
  isPlayerReady :: bool
  isPaused :: bool
  showControls :: bool
  hideControlsTimeoutRef :: "nat option"
  twitch :: bool
  head_scripts :: "script list"
  now :: nat
  timers :: "(nat \<times> nat) list"
  next_timer :: nat
  instances :: "TwitchPlayerInstance list"
  console :: "string list"
  host_log :: "host_call list"

text \<open>
  The fields \<open>isLoading\<close>, \<open>error\<close>, \<open>isPlayerReady\<close>, \<open>isPaused\<close> and \<open>showControls\<close>
  are the component's state: a setter writes them, and the next render reads them. A setter
  only enqueues, so the closures of the last committed render keep seeing \<open>rendered\<close>, the
  values of that render, until the component renders again. The refs are read and written
  at once: \<open>containerRef\<close> is \<open>None\<close> while the container \<^verbatim>\<open>div\<close> is not in the document
  and holds its \<^verbatim>\<open>innerHTML\<close> otherwise; \<open>playerRef\<close> is an index into \<open>instances\<close>, the
  instances constructed so far. \<open>timers\<close> are the pending timeouts as (handle, due time);
  \<open>now\<close> is the clock in milliseconds.
\<close>

definition no_props :: TwitchPlayerProps where
  "no_props = \<lparr>channel = None, video = None, collection = None, width = None, height = None,
     onReady = False, onPlay = False, onPause = False, onEnded = False, onSeek = False\<rparr>"

text \<open>The \<^verbatim>\<open>useState\<close>/\<^verbatim>\<open>useRef\<close> initial values, on a page where the SDK global is
  present or not and the clock reads \<open>t0\<close>.\<close>

definition initial :: "bool \<Rightarrow> nat \<Rightarrow> state" where
  "initial tw t0 = \<lparr>phase = NotMounted, props = no_props,
     rendered = \<lparr>shown_isLoading = True, shown_error = None, shown_isPlayerReady = False,
       shown_isPaused = True, shown_showControls = False\<rparr>,
     containerRef = None, playerRef = None, isLoading = True, error = None, isPlayerReady = False,
     isPaused = True, showControls = False, hideControlsTimeoutRef = None,
     twitch = tw, head_scripts = [], now = t0, timers = [], next_timer = 1,
     instances = [], console = [], host_log = []\<rparr>"

definition then_do :: "exn + 'a \<Rightarrow> ('a \<Rightarrow> exn + 'b) \<Rightarrow> exn + 'b" where
  "then_do r f = (case r of Inl e \<Rightarrow> Inl e | Inr a \<Rightarrow> f a)"

subsection \<open>The overlay's idle timer\<close>

definition clearTimeout :: "nat \<Rightarrow> state \<Rightarrow> state" where
  "clearTimeout i s = s\<lparr>timers := filter (\<lambda>tm. fst tm \<noteq> i) (timers s)\<rparr>"

definition setTimeout :: "nat \<Rightarrow> state \<Rightarrow> nat \<times> state" where
  "setTimeout delay s =
     (next_timer s,
      s\<lparr>timers := timers s @ [(next_timer s, now s + delay)],
        next_timer := Suc (next_timer s)\<rparr>)"

text \<open>\<^verbatim>\<open>if (hideControlsTimeoutRef.current)\<close> is a truthiness test: \<^verbatim>\<open>null\<close> and the
  handle \<open>0\<close> are falsy.\<close>

definition clearHideTimeout :: "state \<Rightarrow> state" where
  "clearHideTimeout s =
     (case hideControlsTimeoutRef s of
        None \<Rightarrow> s
      | Some i \<Rightarrow>
          if i = 0 then s
          else (clearTimeout i s)\<lparr>hideControlsTimeoutRef := None\<rparr>)"

text \<open>The callback handed to \<^verbatim>\<open>setTimeout\<close> in \<^verbatim>\<open>handleMouseActivity\<close>.\<close>

definition hide_callback :: "state \<Rightarrow> state" where
  "hide_callback s = s\<lparr>showControls := False, hideControlsTimeoutRef := None\<rparr>"

definition handleMouseActivity :: "state \<Rightarrow> state" where
  "handleMouseActivity s =
     (let s1 = clearHideTimeout (s\<lparr>showControls := True\<rparr>);
          (i, s2) = setTimeout 3000 s1
      in s2\<lparr>hideControlsTimeoutRef := Some i\<rparr>)"

definition handleMouseLeave :: "state \<Rightarrow> state" where
  "handleMouseLeave s = clearHideTimeout (s\<lparr>showControls := False\<rparr>)"

text \<open>Time passes: the clock advances by \<open>d\<close> milliseconds and every timeout that is due
  runs its callback and leaves the queue.\<close>

definition elapse :: "nat \<Rightarrow> state \<Rightarrow> state" where
  "elapse d s =
     (let t = now s + d;
          due = filter (\<lambda>tm. snd tm \<le> t) (timers s);
          rest = filter (\<lambda>tm. \<not> snd tm \<le> t) (timers s)
      in fold (\<lambda>tm. hide_callback) due (s\<lparr>now := t, timers := rest\<rparr>))"

subsection \<open>Calling the instance\<close>

definition note_call :: "sdk_call \<Rightarrow> TwitchPlayerInstance \<Rightarrow> TwitchPlayerInstance" where
  "note_call c inst = inst\<lparr>calls := calls inst @ [c], destroyed := (destroyed inst \<or> c = Destroy)\<rparr>"

text \<open>\<^verbatim>\<open>r.m(...)\<close> for a reference \<open>r\<close>: a \<^verbatim>\<open>null\<close> reference raises a TypeError, the SDK
  may throw, otherwise the instance has received the call.\<close>

definition call_method :: "sdk \<Rightarrow> nat option \<Rightarrow> sdk_call \<Rightarrow> state \<Rightarrow> exn + state" where
  "call_method k r c s =
     (case r of
        None \<Rightarrow> Inl TypeError
      | Some i \<Rightarrow>
          if length (instances s) \<le> i then Inl TypeError
          else if method_throws k (instances s ! i) c then Inl SdkError
          else Inr (s\<lparr>instances := (instances s)[i := note_call c (instances s ! i)]\<rparr>))"

definition read_method ::
  "sdk \<Rightarrow> nat option \<Rightarrow> sdk_call \<Rightarrow> (playback \<Rightarrow> 'a) \<Rightarrow> state \<Rightarrow> exn + ('a \<times> state)" where
  "read_method k r c get s =
     (case r of
        None \<Rightarrow> Inl TypeError
      | Some i \<Rightarrow>
          then_do (call_method k r c s)
            (\<lambda>s'. Inr (get (playback (instances s ! i)), s')))"

text \<open>\<^verbatim>\<open>playerRef.current && isPlayerReady\<close>, as \<^verbatim>\<open>handlePlayPause\<close> and every method of the
  handle evaluate it: the ref is read when the method runs, \<^verbatim>\<open>isPlayerReady\<close> is the
  variable of the render that built the closure.\<close>

definition guard :: "state \<Rightarrow> bool" where
  "guard s = (playerRef s \<noteq> None \<and> shown_isPlayerReady (rendered s))"

definition handlePlayPause :: "sdk \<Rightarrow> state \<Rightarrow> exn + state" where
  "handlePlayPause k s =
     then_do
       (if guard s
        then (if shown_isPaused (rendered s) then call_method k (playerRef s) Play s
              else call_method k (playerRef s) Pause s)
        else Inr s)
       (\<lambda>s'. Inr (handleMouseActivity s'))"

subsection \<open>The imperative handle (\<^verbatim>\<open>useImperativeHandle\<close>)\<close>

text \<open>\<open>ref_m\<close> is the method \<^verbatim>\<open>m\<close> of \<^verbatim>\<open>TwitchPlayerRef\<close>. Its \<^verbatim>\<open>isPlayerReady\<close> and
  \<^verbatim>\<open>isPaused\<close> are those of the last committed render. The host may call a method at any
  moment: after a render, but also from one of its callbacks or effects while a state
  update of the component is still waiting for the next render.\<close>

definition ref_play :: "sdk \<Rightarrow> state \<Rightarrow> exn + state" where
  "ref_play k s = (if guard s then call_method k (playerRef s) Play s else Inr s)"

definition ref_pause :: "sdk \<Rightarrow> state \<Rightarrow> exn + state" where
  "ref_pause k s = (if guard s then call_method k (playerRef s) Pause s else Inr s)"

definition ref_togglePlayPause :: "sdk \<Rightarrow> state \<Rightarrow> exn + state" where
  "ref_togglePlayPause k s =
     (if guard s
      then (if shown_isPaused (rendered s) then call_method k (playerRef s) Play s
            else call_method k (playerRef s) Pause s)
      else Inr s)"

definition ref_isPaused :: "state \<Rightarrow> bool" where
  "ref_isPaused s = shown_isPaused (rendered s)"

definition ref_seek :: "sdk \<Rightarrow> real \<Rightarrow> state \<Rightarrow> exn + state" where
  "ref_seek k timestamp s =
     (if guard s then call_method k (playerRef s) (Seek timestamp) s else Inr s)"

definition ref_setVolume :: "sdk \<Rightarrow> real \<Rightarrow> state \<Rightarrow> exn + state" where
  "ref_setVolume k v s =
     (if guard s then call_method k (playerRef s) (SetVolume v) s else Inr s)"

definition ref_getVolume :: "sdk \<Rightarrow> state \<Rightarrow> exn + (real \<times> state)" where
  "ref_getVolume k s =
     (if guard s then read_method k (playerRef s) GetVolume sdk_volume s else Inr (0, s))"

definition ref_setMuted :: "sdk \<Rightarrow> bool \<Rightarrow> state \<Rightarrow> exn + state" where
  "ref_setMuted k m s =
     (if guard s then call_method k (playerRef s) (SetMuted m) s else Inr s)"

definition ref_getMuted :: "sdk \<Rightarrow> state \<Rightarrow> exn + (bool \<times> state)" where
  "ref_getMuted k s =
     (if guard s then read_method k (playerRef s) GetMuted sdk_muted s else Inr (False, s))"

definition ref_getCurrentTime :: "sdk \<Rightarrow> state \<Rightarrow> exn + (real \<times> state)" where
  "ref_getCurrentTime k s =
     (if guard s then read_method k (playerRef s) GetCurrentTime sdk_currentTime s
      else Inr (0, s))"

definition ref_getDuration :: "sdk \<Rightarrow> state \<Rightarrow> exn + (real \<times> state)" where
  "ref_getDuration k s =
     (if guard s then read_method k (playerRef s) GetDuration sdk_duration s
      else Inr (0, s))"

definition ref_getChannel :: "sdk \<Rightarrow> state \<Rightarrow> exn + (string \<times> state)" where
  "ref_getChannel k s =
     (if guard s then read_method k (playerRef s) GetChannel sdk_channel s
      else Inr ([], s))"

definition ref_setChannel :: "sdk \<Rightarrow> string \<Rightarrow> state \<Rightarrow> exn + state" where
  "ref_setChannel k c s =
     (if guard s then call_method k (playerRef s) (SetChannel c) s else Inr s)"

definition ref_setVideo :: "sdk \<Rightarrow> string \<Rightarrow> real option \<Rightarrow> state \<Rightarrow> exn + state" where
  "ref_setVideo k v timestamp s =
     (if guard s then call_method k (playerRef s) (SetVideo v timestamp) s else Inr s)"

definition ref_isReady :: "state \<Rightarrow> bool" where
  "ref_isReady s = shown_isPlayerReady (rendered s)"

text \<open>A call of the handle by the host, and what it returns.\<close>

datatype ref_call =
    CallPlay | CallPause | CallTogglePlayPause | CallIsPaused | CallSeek real
  | CallSetVolume real | CallGetVolume | CallSetMuted bool | CallGetMuted
  | CallGetCurrentTime | CallGetDuration | CallGetChannel | CallSetChannel string
  | CallSetVideo string "real option" | CallIsReady

datatype js_value = JUndefined | JNumber real | JBoolean bool | JString string

definition returning :: "('a \<Rightarrow> js_value) \<Rightarrow> exn + ('a \<times> state) \<Rightarrow> exn + (js_value \<times> state)" where
  "returning f r = then_do r (\<lambda>(v, s'). Inr (f v, s'))"

definition returning_void :: "exn + state \<Rightarrow> exn + (js_value \<times> state)" where
  "returning_void r = then_do r (\<lambda>s'. Inr (JUndefined, s'))"

fun call_ref :: "sdk \<Rightarrow> ref_call \<Rightarrow> state \<Rightarrow> exn + (js_value \<times> state)" where
  "call_ref k CallPlay s = returning_void (ref_play k s)"
| "call_ref k CallPause s = returning_void (ref_pause k s)"
| "call_ref k CallTogglePlayPause s = returning_void (ref_togglePlayPause k s)"
| "call_ref k CallIsPaused s = Inr (JBoolean (ref_isPaused s), s)"
| "call_ref k (CallSeek t) s = returning_void (ref_seek k t s)"
| "call_ref k (CallSetVolume v) s = returning_void (ref_setVolume k v s)"
| "call_ref k CallGetVolume s = returning JNumber (ref_getVolume k s)"
| "call_ref k (CallSetMuted m) s = returning_void (ref_setMuted k m s)"
| "call_ref k CallGetMuted s = returning JBoolean (ref_getMuted k s)"
| "call_ref k CallGetCurrentTime s = returning JNumber (ref_getCurrentTime k s)"
| "call_ref k CallGetDuration s = returning JNumber (ref_getDuration k s)"
| "call_ref k CallGetChannel s = returning JString (ref_getChannel k s)"
| "call_ref k (CallSetChannel c) s = returning_void (ref_setChannel k c s)"
| "call_ref k (CallSetVideo v t) s = returning_void (ref_setVideo k v t s)"
| "call_ref k CallIsReady s = Inr (JBoolean (ref_isReady s), s)"

subsection \<open>The lifecycle effect (\<^verbatim>\<open>useEffect\<close>)\<close>

text \<open>The template literal renders \<^verbatim>\<open>Date.now()\<close>, a non-negative integer, in decimal.\<close>

definition digit :: "nat \<Rightarrow> char" where
  "digit d = char_of (48 + d)"

fun decimal :: "nat \<Rightarrow> string" where
  "decimal n = (if n < 10 then [digit n] else decimal (n div 10) @ [digit (n mod 10)])"

declare decimal.simps [simp del]

definition playerId :: "nat \<Rightarrow> string" where
  "playerId t = ''twitch-player-'' @ decimal t"

definition container_html :: "string \<Rightarrow> string" where
  "container_html pid = ''<div id='' @ [CHR 0x22] @ pid @ [CHR 0x22] @ ''></div>''"

definition dimension_or_default :: "dimension option \<Rightarrow> dimension" where
  "dimension_or_default d = (case d of None \<Rightarrow> StringDim ''100%'' | Some v \<Rightarrow> v)"

definition options_of :: "TwitchPlayerProps \<Rightarrow> TwitchPlayerOptions" where
  "options_of p = \<lparr>opt_channel = channel p, opt_video = video p,
     opt_collection = collection p, opt_width = dimension_or_default (width p),
     opt_height = dimension_or_default (height p)\<rparr>"

text \<open>The block \<^verbatim>\<open>if (playerRef.current) { destroy(); playerRef.current = null;
  setIsPlayerReady(false) }\<close>, which \<^verbatim>\<open>loadTwitchPlayer\<close> and the cleanup share.\<close>

definition destroy_current :: "sdk \<Rightarrow> state \<Rightarrow> exn + state" where
  "destroy_current k s =
     (case playerRef s of
        None \<Rightarrow> Inr s
      | Some i \<Rightarrow>
          then_do (call_method k (Some i) Destroy s)
            (\<lambda>s'. Inr (s'\<lparr>playerRef := None, isPlayerReady := False\<rparr>)))"

text \<open>\<^verbatim>\<open>new window.Twitch.Player(playerId, options)\<close>: a TypeError when the global is
  missing; otherwise the SDK throws or a new instance joins the page. The listeners to be
  registered on it close over the props \<open>p\<close> of the running effect.\<close>

definition new_Player ::
  "sdk \<Rightarrow> string \<Rightarrow> TwitchPlayerOptions \<Rightarrow> TwitchPlayerProps \<Rightarrow> state \<Rightarrow> exn + (nat \<times> state)" where
  "new_Player k pid opts p s =
     (if \<not> twitch s then Inl TypeError
      else case Player k pid opts of
             None \<Rightarrow> Inl SdkError
           | Some pb \<Rightarrow>
               Inr (length (instances s),
                    s\<lparr>instances := instances s @
                        [\<lparr>elementId = pid, options = opts, handlers = [], captured = p,
                          calls = [], destroyed = False, playback = pb\<rparr>]\<rparr>))"

definition addEventListener :: "sdk \<Rightarrow> nat \<Rightarrow> string \<Rightarrow> state \<Rightarrow> exn + state" where
  "addEventListener k i ev s =
     (if addEventListener_throws k ev then Inl SdkError
      else Inr (s\<lparr>instances := (instances s)
                  [i := (instances s ! i)\<lparr>handlers := handlers (instances s ! i) @ [ev]\<rparr>]\<rparr>))"

definition sdk_events :: "string list" where
  "sdk_events = [''ready'', ''play'', ''pause'', ''ended'', ''seek'']"

text \<open>The five registrations inside the \<^verbatim>\<open>try\<close> block, in order; the result says whether
  one of them threw, and holds the state reached at that point.\<close>

fun add_listeners :: "sdk \<Rightarrow> nat \<Rightarrow> string list \<Rightarrow> state \<Rightarrow> bool \<times> state" where
  "add_listeners k i [] s = (False, s)"
| "add_listeners k i (ev # evs) s =
     (case addEventListener k i ev s of
        Inl e \<Rightarrow> (True, s)
      | Inr s' \<Rightarrow> add_listeners k i evs s')"

text \<open>The \<^verbatim>\<open>catch\<close> block.\<close>

definition catch_handler :: "state \<Rightarrow> state" where
  "catch_handler s =
     s\<lparr>error := Some ''Failed to initialize Twitch player'', isLoading := False,
       isPlayerReady := False, console := console s @ [''Twitch Player Error:'']\<rparr>"

text \<open>The \<^verbatim>\<open>try\<close> statement of \<^verbatim>\<open>loadTwitchPlayer\<close>: whatever is thrown inside is caught,
  and the \<^verbatim>\<open>catch\<close> block runs on the state reached by then.\<close>

definition try_create :: "sdk \<Rightarrow> TwitchPlayerProps \<Rightarrow> string \<Rightarrow> state \<Rightarrow> state" where
  "try_create k p pid s =
     (case new_Player k pid (options_of p) p s of
        Inl e \<Rightarrow> catch_handler s
      | Inr (i, s3) \<Rightarrow>
          (case add_listeners k i sdk_events (s3\<lparr>playerRef := Some i\<rparr>) of
             (True, s4) \<Rightarrow> catch_handler s4
           | (False, s4) \<Rightarrow> s4))"

definition loadTwitchPlayer :: "sdk \<Rightarrow> TwitchPlayerProps \<Rightarrow> state \<Rightarrow> exn + state" where
  "loadTwitchPlayer k p s =
     (case containerRef s of
        None \<Rightarrow> Inr s
      | Some h \<Rightarrow>
          then_do (destroy_current k s)
            (\<lambda>s1.
               let pid = playerId (now s1)
               in Inr (try_create k p pid (s1\<lparr>containerRef := Some (container_html pid)\<rparr>))))"

definition embed_url :: string where
  "embed_url = ''https://embed.twitch.tv/embed/v1.js''"

text \<open>\<^verbatim>\<open>script.onerror\<close>\<close>

definition script_onerror :: "state \<Rightarrow> state" where
  "script_onerror s =
     s\<lparr>error := Some ''Failed to load Twitch embed script'', isLoading := False,
       isPlayerReady := False\<rparr>"

text \<open>The body of the effect, run with the props of the current render.\<close>

definition effect :: "sdk \<Rightarrow> state \<Rightarrow> exn + state" where
  "effect k s =
     (if \<not> twitch s
      then Inr (s\<lparr>head_scripts := head_scripts s @
                  [\<lparr>src = embed_url, onload_props = props s, settled = False\<rparr>]\<rparr>)
      else loadTwitchPlayer k (props s) s)"

text \<open>The function the effect returns.\<close>

definition cleanup :: "sdk \<Rightarrow> state \<Rightarrow> exn + state" where
  "cleanup k s = destroy_current k (clearHideTimeout s)"

subsection \<open>The event bridge\<close>

text \<open>\<^verbatim>\<open>cb?.(...)\<close>: the host's callback runs when it was supplied.\<close>

definition notify :: "bool \<Rightarrow> host_call \<Rightarrow> state \<Rightarrow> state" where
  "notify supplied c s = (if supplied then s\<lparr>host_log := host_log s @ [c]\<rparr> else s)"

text \<open>The five listeners that \<^verbatim>\<open>loadTwitchPlayer\<close> registers; \<open>p\<close> is the props they
  close over and \<open>i\<close> the instance \<^verbatim>\<open>player\<close> of that closure.\<close>

definition ready_listener :: "TwitchPlayerProps \<Rightarrow> state \<Rightarrow> state" where
  "ready_listener p s =
     notify (onReady p) OnReady
       (s\<lparr>isLoading := False, error := None, isPlayerReady := True, isPaused := False\<rparr>)"

definition play_listener :: "TwitchPlayerProps \<Rightarrow> state \<Rightarrow> state" where
  "play_listener p s = notify (onPlay p) OnPlay (s\<lparr>isPaused := False\<rparr>)"

definition pause_listener :: "TwitchPlayerProps \<Rightarrow> state \<Rightarrow> state" where
  "pause_listener p s = notify (onPause p) OnPause (s\<lparr>isPaused := True\<rparr>)"

definition ended_listener :: "TwitchPlayerProps \<Rightarrow> state \<Rightarrow> state" where
  "ended_listener p s = notify (onEnded p) OnEnded (s\<lparr>isPaused := True\<rparr>)"

definition seek_listener :: "sdk \<Rightarrow> nat \<Rightarrow> TwitchPlayerProps \<Rightarrow> state \<Rightarrow> exn + state" where
  "seek_listener k i p s =
     then_do (read_method k (Some i) GetCurrentTime sdk_currentTime s)
       (\<lambda>(currentTime, s'). Inr (notify (onSeek p) (OnSeek currentTime) s'))"

definition listener :: "sdk \<Rightarrow> nat \<Rightarrow> TwitchPlayerProps \<Rightarrow> string \<Rightarrow> state \<Rightarrow> exn + state" where
  "listener k i p ev s =
     (if ev = ''ready'' then Inr (ready_listener p s)
      else if ev = ''play'' then Inr (play_listener p s)
      else if ev = ''pause'' then Inr (pause_listener p s)
      else if ev = ''ended'' then Inr (ended_listener p s)
      else if ev = ''seek'' then seek_listener k i p s
      else Inr s)"

text \<open>Instance \<open>i\<close> emits the event \<open>ev\<close>: the listener registered for it runs. An
  instance emits nothing once it is destroyed.\<close>

definition sdk_emit :: "sdk \<Rightarrow> nat \<Rightarrow> string \<Rightarrow> state \<Rightarrow> exn + state" where
  "sdk_emit k i ev s =
     (if i < length (instances s) \<and> \<not> destroyed (instances s ! i)
         \<and> ev \<in> set (handlers (instances s ! i))
      then listener k i (captured (instances s ! i)) ev s
      else Inr s)"

text \<open>The SDK changes what the getters of a live instance answer.\<close>

definition sdk_change :: "nat \<Rightarrow> playback \<Rightarrow> state \<Rightarrow> state" where
  "sdk_change i pb s =
     (if i < length (instances s) \<and> \<not> destroyed (instances s ! i)
      then s\<lparr>instances := (instances s)[i := (instances s ! i)\<lparr>playback := pb\<rparr>]\<rparr>
      else s)"

subsection \<open>The page settles a script\<close>

text \<open>A script element fires \<^verbatim>\<open>load\<close> or \<^verbatim>\<open>error\<close> once. A loaded embed script has
  defined \<^verbatim>\<open>window.Twitch\<close>.\<close>

definition settle :: "nat \<Rightarrow> state \<Rightarrow> state" where
  "settle n s = s\<lparr>head_scripts := (head_scripts s)[n := (head_scripts s ! n)\<lparr>settled := True\<rparr>]\<rparr>"

definition pending :: "nat \<Rightarrow> state \<Rightarrow> bool" where
  "pending n s = (n < length (head_scripts s) \<and> \<not> settled (head_scripts s ! n))"

definition script_loaded :: "sdk \<Rightarrow> nat \<Rightarrow> state \<Rightarrow> exn + state" where
  "script_loaded k n s =
     (if pending n s
      then loadTwitchPlayer k (onload_props (head_scripts s ! n)) ((settle n s)\<lparr>twitch := True\<rparr>)
      else Inr s)"

definition script_failed :: "nat \<Rightarrow> state \<Rightarrow> state" where
  "script_failed n s = (if pending n s then script_onerror (settle n s) else s)"

subsection \<open>Rendering\<close>

text \<open>What the component returns: the error surface, or the player surface with the
  loading overlay, the \<^verbatim>\<open>pointer-events: none\<close> flag of the container and, when the player
  is ready, the controls overlay (visible?, showing the play icon?).\<close>

datatype view =
    ErrorView string
  | PlayerView bool bool "(bool \<times> bool) option"

definition player_view :: "rendering \<Rightarrow> view" where
  "player_view r =
     PlayerView (shown_isLoading r) (shown_showControls r)
       (if shown_isPlayerReady r then Some (shown_showControls r, shown_isPaused r) else None)"

text \<open>\<^verbatim>\<open>if (error)\<close> is a truthiness test: \<^verbatim>\<open>null\<close> and the empty string are falsy.\<close>

definition render :: "rendering \<Rightarrow> view" where
  "render r =
     (case shown_error r of
        None \<Rightarrow> player_view r
      | Some msg \<Rightarrow> if msg = [] then player_view r else ErrorView (''Error: '' @ msg))"

text \<open>The state values that a render starting now reads.\<close>

definition current :: "state \<Rightarrow> rendering" where
  "current s = \<lparr>shown_isLoading = isLoading s, shown_error = error s,
     shown_isPlayerReady = isPlayerReady s, shown_isPaused = isPaused s,
     shown_showControls = showControls s\<rparr>"

text \<open>The component renders and React commits the result: the closures now hold the
  current state values, and the container \<^verbatim>\<open>div\<close> is attached when the player surface is
  returned and detached when the error surface is. A newly attached \<^verbatim>\<open>div\<close> is empty.\<close>

definition commit :: "state \<Rightarrow> state" where
  "commit s =
     (case render (current s) of
        ErrorView msg \<Rightarrow> s\<lparr>rendered := current s, containerRef := None\<rparr>
      | PlayerView l b c \<Rightarrow>
          s\<lparr>rendered := current s,
            containerRef := (case containerRef s of None \<Rightarrow> Some [] | Some h \<Rightarrow> Some h)\<rparr>)"

subsection \<open>The lifecycle of one widget\<close>

datatype event =
    Mount TwitchPlayerProps
  | Rerender TwitchPlayerProps
  | Render
  | Unmount
  | ScriptLoaded nat
  | ScriptFailed nat
  | SdkEvent nat string
  | SdkChange nat playback
  | MouseMove
  | Click
  | MouseLeave
  | ButtonClick
  | Elapse nat
  | Call ref_call

text \<open>
  \<open>Mount\<close> is the first render, its commit and the effect. \<open>Rerender\<close> is a render in
  which a dependency of the effect changed (a configuration prop, or the identity of a
  callback, which the record does not show): after the commit the previous cleanup runs,
  then the effect. \<open>Render\<close> is any other render, the one React schedules after a state
  update among them. \<open>Unmount\<close> detaches the container and runs the cleanup. Every other
  event runs one handler of the component and leaves the next render to come: events may
  follow one another before it, so a call of the handle can see the closures of a render
  that is older than the state. Pointer events reach the handlers only while the player
  surface is what the last render returned, and the play/pause button only while that
  render showed the controls; a click on the button bubbles to the container's
  \<^verbatim>\<open>onClick\<close>. The host can call the handle while the component is mounted. A call made
  from inside a host callback is a \<open>Call\<close> right after the SDK event, before the next
  \<open>Render\<close>.
\<close>

definition surface_rendered :: "state \<Rightarrow> bool" where
  "surface_rendered s =
     (phase s = Mounted \<and>
      (case render (rendered s) of ErrorView m \<Rightarrow> False | PlayerView l b c \<Rightarrow> True))"

fun handle :: "sdk \<Rightarrow> event \<Rightarrow> state \<Rightarrow> exn + state" where
  "handle k (Mount p) s =
     (if phase s = NotMounted
      then effect k (commit (s\<lparr>phase := Mounted, props := p\<rparr>))
      else Inr s)"
| "handle k (Rerender p) s =
     (if phase s = Mounted
      then then_do (cleanup k (commit (s\<lparr>props := p\<rparr>))) (effect k)
      else Inr s)"
| "handle k Render s = Inr (if phase s = Mounted then commit s else s)"
| "handle k Unmount s =
     (if phase s = Mounted
      then cleanup k (s\<lparr>phase := Unmounted, containerRef := None\<rparr>)
      else Inr s)"
| "handle k (ScriptLoaded n) s = script_loaded k n s"
| "handle k (ScriptFailed n) s = Inr (script_failed n s)"
| "handle k (SdkEvent i ev) s = sdk_emit k i ev s"
| "handle k (SdkChange i pb) s = Inr (sdk_change i pb s)"
| "handle k MouseMove s = Inr (if surface_rendered s then handleMouseActivity s else s)"
| "handle k Click s = Inr (if surface_rendered s then handleMouseActivity s else s)"
| "handle k MouseLeave s = Inr (if surface_rendered s then handleMouseLeave s else s)"
| "handle k ButtonClick s =
     (if surface_rendered s \<and> shown_isPlayerReady (rendered s)
      then then_do (handlePlayPause k s) (\<lambda>s'. Inr (handleMouseActivity s'))
      else Inr s)"
| "handle k (Elapse d) s = Inr (elapse d s)"
| "handle k (Call c) s =
     (if phase s = Mounted then then_do (call_ref k c s) (\<lambda>(v, s'). Inr s') else Inr s)"

fun run :: "sdk \<Rightarrow> event list \<Rightarrow> state \<Rightarrow> exn + state" where
  "run k [] s = Inr s"
| "run k (e # es) s = then_do (handle k e s) (run k es)"

text \<open>Three SDKs to run the model on: one that never throws, one whose constructor and
  methods always throw, and one that constructs a player whose methods, \<^verbatim>\<open>destroy\<close> apart,
  throw.\<close>

definition silent_playback :: playback where
  "silent_playback = \<lparr>sdk_volume = 1, sdk_muted = False, sdk_currentTime = 0,
     sdk_duration = 0, sdk_channel = []\<rparr>"

definition sdk_ok :: sdk where
  "sdk_ok = \<lparr>Player = (\<lambda>pid opts. Some silent_playback),
     addEventListener_throws = (\<lambda>ev. False), method_throws = (\<lambda>inst c. False)\<rparr>"

definition sdk_broken :: sdk where
  "sdk_broken = \<lparr>Player = (\<lambda>pid opts. None),
     addEventListener_throws = (\<lambda>ev. False), method_throws = (\<lambda>inst c. True)\<rparr>"

definition sdk_strict :: sdk where
  "sdk_strict = \<lparr>Player = (\<lambda>pid opts. Some silent_playback),
     addEventListener_throws = (\<lambda>ev. False), method_throws = (\<lambda>inst c. c \<noteq> Destroy)\<rparr>"

definition channel_props :: "string \<Rightarrow> TwitchPlayerProps" where
  "channel_props c = \<lparr>channel = Some c, video = None, collection = None, width = None,
     height = None, onReady = True, onPlay = True, onPause = True, onEnded = True,
     onSeek = True\<rparr>"

text \<open>A concrete widget for the examples: mounted with channel \<open>abc\<close> and every callback
  supplied, on a page that has the SDK and whose clock reads 7; after its instance has
  signalled ready; and after the next render.\<close>

definition demo_instance :: TwitchPlayerInstance where
  "demo_instance = \<lparr>elementId = ''twitch-player-7'', options = options_of (channel_props ''abc''),
     handlers = sdk_events, captured = channel_props ''abc'', calls = [], destroyed = False,
     playback = silent_playback\<rparr>"

definition demo_mounted :: state where
  "demo_mounted = (initial True 7)\<lparr>phase := Mounted, props := channel_props ''abc'',
     containerRef := Some (container_html ''twitch-player-7''), playerRef := Some 0,
     instances := [demo_instance]\<rparr>"

definition demo_ready :: state where
  "demo_ready = demo_mounted\<lparr>isLoading := False, isPlayerReady := True, isPaused := False,
     host_log := [OnReady]\<rparr>"

definition demo_playing :: state where
  "demo_playing = demo_ready\<lparr>rendered := \<lparr>shown_isLoading = False, shown_error = None,
     shown_isPlayerReady = True, shown_isPaused = False, shown_showControls = False\<rparr>\<rparr>"

text \<open>The same widget after the host switched it to channel \<open>xyz\<close> within the same
  millisecond, before the component has rendered again: the first instance is destroyed,
  a second one, which has not signalled ready, owns the widget, \<^verbatim>\<open>setIsPlayerReady(false)\<close>
  is enqueued, and the closures are those of the render that saw the player ready.\<close>

definition demo_switched :: state where
  "demo_switched = demo_playing\<lparr>props := channel_props ''xyz'', playerRef := Some 1,
     isPlayerReady := False,
     instances := [note_call Destroy demo_instance,
       demo_instance\<lparr>options := options_of (channel_props ''xyz''),
         captured := channel_props ''xyz''\<rparr>]\<rparr>"

text \<open>The widget waiting for the embed script, on a page that has no SDK yet; and the
  widget whose constructor threw (the SDK \<open>sdk_broken\<close>), before it renders again.\<close>

definition demo_waiting :: state where
  "demo_waiting = (initial False 7)\<lparr>phase := Mounted, props := channel_props ''abc'',
     containerRef := Some [],
     head_scripts := [\<lparr>src = embed_url, onload_props = channel_props ''abc'',
       settled = False\<rparr>]\<rparr>"

definition demo_failed :: state where
  "demo_failed = (initial True 7)\<lparr>phase := Mounted, props := channel_props ''abc'',
     containerRef := Some (container_html ''twitch-player-7''),
     error := Some ''Failed to initialize Twitch player'', isLoading := False,
     console := [''Twitch Player Error:'']\<rparr>"

definition live :: "state \<Rightarrow> nat list" where
  "live s = filter (\<lambda>i. \<not> destroyed (instances s ! i)) [0..<length (instances s)]"

definition owned :: "state \<Rightarrow> bool" where
  "owned s = (\<forall>i \<in> set (live s). playerRef s = Some i)"

text \<open>The timer queue and the ref agree: the ref holds the handle of the one pending
  timeout, or \<^verbatim>\<open>null\<close> when none is pending; handles are positive.\<close>

definition timer_ok :: "state \<Rightarrow> bool" where
  "timer_ok s =
     (map fst (timers s) = (case hideControlsTimeoutRef s of None \<Rightarrow> [] | Some i \<Rightarrow> [i])
      \<and> hideControlsTimeoutRef s \<noteq> Some 0 \<and> 0 < next_timer s)"

definition calls_only :: "state \<Rightarrow> state \<Rightarrow> bool" where
  "calls_only s s' \<longleftrightarrow>
     (\<exists>X. s' = s\<lparr>instances := X\<rparr> \<and> map destroyed X = map destroyed (instances s)
        \<and> map elementId X = map elementId (instances s))"

text \<open>A render shows the error surface exactly when its \<^verbatim>\<open>error\<close> is truthy.\<close>

definition errored :: "rendering \<Rightarrow> bool" where
  "errored r = (case shown_error r of None \<Rightarrow> False | Some msg \<Rightarrow> msg \<noteq> [])"

text \<open>Errored and ready exclude each other, in the state and in what the last render saw.\<close>

definition exclusive :: "state \<Rightarrow> bool" where
  "exclusive s =
     (\<not> (errored (current s) \<and> isPlayerReady s)
      \<and> \<not> (errored (rendered s) \<and> shown_isPlayerReady (rendered s)))"

section \<open>Basic facts about the model\<close>

lemma then_do_Inr [simp]: "then_do r f = Inr b \<longleftrightarrow> (\<exists>a. r = Inr a \<and> f a = Inr b)"
  by (cases r) (simp_all add: then_do_def)

lemma then_do_simps [simp]: "then_do (Inr a) f = f a" "then_do (Inl e) f = Inl e"
  by (simp_all add: then_do_def)

lemma map_update_same: "f y = f (xs ! i) \<Longrightarrow> map f (xs[i := y]) = map f xs"
  by (induction xs arbitrary: i) (auto split: nat.splits)

lemma note_call_fields [simp]:
  "elementId (note_call c inst) = elementId inst"
  "destroyed (note_call c inst) = (destroyed inst \<or> c = Destroy)"
  "handlers (note_call c inst) = handlers inst"
  "captured (note_call c inst) = captured inst"
  "playback (note_call c inst) = playback inst"
  "calls (note_call c inst) = calls inst @ [c]"
  by (simp_all add: note_call_def)

lemma call_method_Inr:
  "call_method k r c s = Inr s' \<longleftrightarrow>
     (\<exists>i. r = Some i \<and> i < length (instances s) \<and> \<not> method_throws k (instances s ! i) c
        \<and> s' = s\<lparr>instances := (instances s)[i := note_call c (instances s ! i)]\<rparr>)"
  by (auto simp: call_method_def split: option.splits)

lemma read_method_Inr:
  "read_method k r c g s = Inr (v, s') \<longleftrightarrow>
     (\<exists>i. r = Some i \<and> i < length (instances s) \<and> \<not> method_throws k (instances s ! i) c
        \<and> v = g (playback (instances s ! i))
        \<and> s' = s\<lparr>instances := (instances s)[i := note_call c (instances s ! i)]\<rparr>)"
  by (auto simp: read_method_def call_method_Inr split: option.splits)

lemma decimal_7: "decimal 7 = ''7''"
  by code_simp

lemma playerId_7: "playerId 7 = ''twitch-player-7''"
  by (simp add: playerId_def decimal_7)

lemma demo_sdks:
  assumes "k = sdk_ok \<or> k = sdk_strict"
  shows "Player k pid opts = Some silent_playback" "\<not> addEventListener_throws k ev"
    "\<not> method_throws k inst Destroy"
  using assms by (auto simp: sdk_ok_def sdk_strict_def)

lemma mount_demo:
  assumes "k = sdk_ok \<or> k = sdk_strict"
  shows "handle k (Mount (channel_props ''abc'')) (initial True 7) = Inr demo_mounted"
  by (simp add: effect_def loadTwitchPlayer_def destroy_current_def try_create_def
      new_Player_def sdk_events_def addEventListener_def commit_def current_def render_def
      player_view_def playerId_7 demo_mounted_def demo_instance_def initial_def
      demo_sdks [OF assms] then_do_def Let_def del: then_do_Inr)

lemma ready_demo: "handle k (SdkEvent 0 ''ready'') demo_mounted = Inr demo_ready"
  by (simp add: sdk_emit_def listener_def ready_listener_def notify_def
      demo_ready_def demo_mounted_def demo_instance_def initial_def
      sdk_events_def channel_props_def then_do_def del: then_do_Inr)

lemma render_demo: "handle k Render demo_ready = Inr demo_playing"
  by (simp add: commit_def current_def render_def player_view_def demo_playing_def
      demo_ready_def demo_mounted_def initial_def)

lemma demo_mounted_fields [simp]:
  "playerRef demo_mounted = Some 0" "\<not> isPlayerReady demo_mounted" "isPaused demo_mounted"
  "instances demo_mounted = [demo_instance]" "host_log demo_mounted = []"
  "phase demo_mounted = Mounted" "error demo_mounted = None"
  "\<not> shown_isPlayerReady (rendered demo_mounted)"
  by (simp_all add: demo_mounted_def initial_def)

lemma demo_instance_fields [simp]:
  "handlers demo_instance = sdk_events" "captured demo_instance = channel_props ''abc''"
  "\<not> destroyed demo_instance" "calls demo_instance = []"
  "playback demo_instance = silent_playback" "elementId demo_instance = ''twitch-player-7''"
  by (simp_all add: demo_instance_def)

lemma demo_ready_fields [simp]:
  "playerRef demo_ready = Some 0" "isPlayerReady demo_ready" "\<not> isPaused demo_ready"
  "\<not> isLoading demo_ready"
  "instances demo_ready = [demo_instance]" "host_log demo_ready = [OnReady]"
  "phase demo_ready = Mounted" "error demo_ready = None"
  "\<not> shown_isPlayerReady (rendered demo_ready)"
  by (simp_all add: demo_ready_def)

lemma demo_playing_fields [simp]:
  "playerRef demo_playing = Some 0" "isPlayerReady demo_playing" "\<not> isPaused demo_playing"
  "\<not> isLoading demo_playing"
  "instances demo_playing = [demo_instance]" "host_log demo_playing = [OnReady]"
  "phase demo_playing = Mounted" "error demo_playing = None"
  "shown_isPlayerReady (rendered demo_playing)" "\<not> shown_isPaused (rendered demo_playing)"
  by (simp_all add: demo_playing_def)

lemma demo_callbacks [simp]:
  "onReady (channel_props c)" "onPlay (channel_props c)" "onPause (channel_props c)"
  "onEnded (channel_props c)" "onSeek (channel_props c)"
  by (simp_all add: channel_props_def)

lemma demo_mounted_listening:
  "0 < length (instances demo_mounted)" "\<not> destroyed (instances demo_mounted ! 0)"
  "handlers (instances demo_mounted ! 0) = sdk_events"
  "captured (instances demo_mounted ! 0) = channel_props ''abc''"
  by simp_all

lemma demo_ready_listening:
  "0 < length (instances demo_ready)" "\<not> destroyed (instances demo_ready ! 0)"
  "handlers (instances demo_ready ! 0) = sdk_events"
  "captured (instances demo_ready ! 0) = channel_props ''abc''"
  by simp_all

lemma rerender_demo:
  assumes "k = sdk_ok \<or> k = sdk_strict"
  shows "handle k (Rerender (channel_props ''xyz'')) demo_playing = Inr demo_switched"
  by (simp add: cleanup_def clearHideTimeout_def effect_def loadTwitchPlayer_def
      destroy_current_def call_method_def try_create_def new_Player_def sdk_events_def
      addEventListener_def commit_def current_def render_def player_view_def playerId_7
      demo_switched_def demo_playing_def demo_ready_def demo_mounted_def demo_instance_def
      initial_def demo_sdks [OF assms] then_do_def Let_def note_call_def del: then_do_Inr)

lemma demo_run:
  assumes "k = sdk_ok \<or> k = sdk_strict"
  shows "run k [Mount (channel_props ''abc''), SdkEvent 0 ''ready'', Render,
      Rerender (channel_props ''xyz'')] (initial True 7) = Inr demo_switched"
  by (simp only: run.simps then_do_simps mount_demo [OF assms] ready_demo render_demo
      rerender_demo [OF assms])

lemma demo_playing_run:
  "run sdk_ok [Mount (channel_props ''abc''), SdkEvent 0 ''ready'', Render] (initial True 7)
     = Inr demo_playing"
  by (simp only: run.simps then_do_simps mount_demo [of sdk_ok] simp_thms ready_demo
      render_demo)

lemma demo_playing_clock [simp]:
  "now demo_playing = 7" "next_timer demo_playing = 1" "timers demo_playing = []"
  "hideControlsTimeoutRef demo_playing = None" "\<not> showControls demo_playing"
  by (simp_all add: demo_playing_def demo_ready_def demo_mounted_def initial_def)

lemma waiting_demo:
  "handle k (Mount (channel_props ''abc'')) (initial False 7) = Inr demo_waiting"
  by (simp add: effect_def commit_def current_def render_def player_view_def demo_waiting_def
      initial_def)

lemma failed_demo:
  "handle sdk_broken (Mount (channel_props ''abc'')) (initial True 7) = Inr demo_failed"
  by (simp add: effect_def loadTwitchPlayer_def destroy_current_def try_create_def
      new_Player_def catch_handler_def commit_def current_def render_def player_view_def
      playerId_7 demo_failed_def initial_def sdk_broken_def then_do_def Let_def
      del: then_do_Inr)

lemma demo_switched_fields [simp]:
  "playerRef demo_switched = Some 1" "\<not> isPlayerReady demo_switched"
  "\<not> isPaused demo_switched" "\<not> isLoading demo_switched"
  "map destroyed (instances demo_switched) = [True, False]"
  "map elementId (instances demo_switched) = [''twitch-player-7'', ''twitch-player-7'']"
  "length (instances demo_switched) = 2"
  "phase demo_switched = Mounted" "error demo_switched = None"
  "shown_isPlayerReady (rendered demo_switched)" "\<not> shown_isPaused (rendered demo_switched)"
  by (simp_all add: demo_switched_def)

lemma run_append: "run k (es @ fs) s = then_do (run k es s) (run k fs)"
proof (induction es arbitrary: s)
  case Nil
  show ?case by simp
next
  case (Cons e es)
  show ?case
    by (cases "handle k e s") (simp_all add: Cons.IH del: handle.simps)
qed

section \<open>The imperative handle is safe at any time\<close>

lemma unguarded_mutators:
  assumes "\<not> guard s"
  shows "ref_play k s = Inr s" "ref_pause k s = Inr s" "ref_togglePlayPause k s = Inr s"
    "ref_seek k t s = Inr s" "ref_setVolume k v s = Inr s" "ref_setMuted k m s = Inr s"
    "ref_setChannel k c s = Inr s" "ref_setVideo k vid ts s = Inr s"
  using assms
  by (simp_all add: ref_play_def ref_pause_def ref_togglePlayPause_def ref_seek_def
      ref_setVolume_def ref_setMuted_def ref_setChannel_def ref_setVideo_def)

lemma unguarded_accessors:
  assumes "\<not> guard s"
  shows "ref_getVolume k s = Inr (0, s)" "ref_getMuted k s = Inr (False, s)"
    "ref_getCurrentTime k s = Inr (0, s)" "ref_getDuration k s = Inr (0, s)"
    "ref_getChannel k s = Inr ([], s)"
  using assms
  by (simp_all add: ref_getVolume_def ref_getMuted_def ref_getCurrentTime_def
      ref_getDuration_def ref_getChannel_def)

lemma absent_instance_unguarded: "playerRef s = None \<Longrightarrow> \<not> guard s"
  by (simp add: guard_def)

lemma demo_switched_instances:
  "instances demo_switched =
     [note_call Destroy demo_instance,
      demo_instance\<lparr>options := options_of (channel_props ''xyz''),
        captured := channel_props ''xyz''\<rparr>]"
  by (simp add: demo_switched_def)

lemma demo_method_throws [simp]:
  "\<not> method_throws sdk_ok inst c" "method_throws sdk_strict inst c \<longleftrightarrow> c \<noteq> Destroy"
  by (simp_all add: sdk_ok_def sdk_strict_def)

text \<open>
  \<^bold>\<open>C1\<close> asks that every mutator of the handle is a silent no-op while the instance is
  absent or the player is not ready. The guard \<^verbatim>\<open>playerRef.current && isPlayerReady\<close> reads
  the ref at once but the readiness of the last render, and \<^verbatim>\<open>setIsPlayerReady(false)\<close>
  only enqueues. So the property fails on the code: a ready widget is switched to another
  channel; before the component renders again the state says not ready, the new instance
  has not signalled ready, and yet \<open>play\<close> and the other mutators are forwarded to it.
  With an SDK that takes the call, the new instance has received it; with one whose
  methods throw, the exception reaches the caller of the handle.
\<close>

theorem facade_mutator_reaches_unready_instance:
  "run sdk_ok [Mount (channel_props ''abc''), SdkEvent 0 ''ready'', Render,
      Rerender (channel_props ''xyz'')] (initial True 7) = Inr demo_switched
   \<and> run sdk_strict [Mount (channel_props ''abc''), SdkEvent 0 ''ready'', Render,
      Rerender (channel_props ''xyz'')] (initial True 7) = Inr demo_switched
   \<and> playerRef demo_switched = Some 1 \<and> isPlayerReady demo_switched = False
   \<and> map calls (instances demo_switched) = [[Destroy], []]
   \<and> map_sum id (\<lambda>s. map calls (instances s)) (ref_play sdk_ok demo_switched)
       = Inr [[Destroy], [Play]]
   \<and> map_sum id (\<lambda>s. map calls (instances s)) (ref_seek sdk_ok 30 demo_switched)
       = Inr [[Destroy], [Seek 30]]
   \<and> ref_play sdk_strict demo_switched = Inl SdkError
   \<and> ref_pause sdk_strict demo_switched = Inl SdkError
   \<and> ref_togglePlayPause sdk_strict demo_switched = Inl SdkError
   \<and> ref_seek sdk_strict 30 demo_switched = Inl SdkError
   \<and> ref_setVolume sdk_strict 0 demo_switched = Inl SdkError
   \<and> ref_setMuted sdk_strict True demo_switched = Inl SdkError
   \<and> ref_setChannel sdk_strict ''xyz'' demo_switched = Inl SdkError
   \<and> ref_setVideo sdk_strict ''v1'' None demo_switched = Inl SdkError
   \<and> run sdk_strict [Mount (channel_props ''abc''), SdkEvent 0 ''ready'', Render,
      Rerender (channel_props ''xyz''), Call CallPlay] (initial True 7) = Inl SdkError"
proof -
  have r: "run k [Mount (channel_props ''abc''), SdkEvent 0 ''ready'', Render,
      Rerender (channel_props ''xyz'')] (initial True 7) = Inr demo_switched"
    if "k = sdk_ok \<or> k = sdk_strict" for k
    using that by (rule demo_run)
  have c: "map calls (instances demo_switched) = [[Destroy], []]"
    by (simp add: demo_switched_instances)
  have g: "guard demo_switched"
    by (simp add: guard_def)
  have ok: "map_sum id (\<lambda>s. map calls (instances s)) (ref_play sdk_ok demo_switched)
       = Inr [[Destroy], [Play]]"
    "map_sum id (\<lambda>s. map calls (instances s)) (ref_seek sdk_ok 30 demo_switched)
       = Inr [[Destroy], [Seek 30]]"
    by (simp_all add: ref_play_def ref_seek_def g call_method_def demo_switched_instances)
  have strict: "ref_play sdk_strict demo_switched = Inl SdkError"
    "ref_pause sdk_strict demo_switched = Inl SdkError"
    "ref_togglePlayPause sdk_strict demo_switched = Inl SdkError"
    "ref_seek sdk_strict 30 demo_switched = Inl SdkError"
    "ref_setVolume sdk_strict 0 demo_switched = Inl SdkError"
    "ref_setMuted sdk_strict True demo_switched = Inl SdkError"
    "ref_setChannel sdk_strict ''xyz'' demo_switched = Inl SdkError"
    "ref_setVideo sdk_strict ''v1'' None demo_switched = Inl SdkError"
    by (simp_all add: ref_play_def ref_pause_def ref_togglePlayPause_def ref_seek_def
        ref_setVolume_def ref_setMuted_def ref_setChannel_def ref_setVideo_def g
        call_method_def demo_switched_instances)
  have h: "handle sdk_strict (Call CallPlay) demo_switched = Inl SdkError"
    by (simp add: returning_void_def strict(1))
  have "run sdk_strict ([Mount (channel_props ''abc''), SdkEvent 0 ''ready'', Render,
      Rerender (channel_props ''xyz'')] @ [Call CallPlay]) (initial True 7) = Inl SdkError"
  proof -
    have rs: "run sdk_strict [Mount (channel_props ''abc''), SdkEvent 0 ''ready'', Render,
        Rerender (channel_props ''xyz'')] (initial True 7) = Inr demo_switched"
      by (rule r) simp
    show ?thesis
      by (simp only: run_append rs then_do_simps) (simp only: run.simps h then_do_simps)
  qed
  then have "run sdk_strict [Mount (channel_props ''abc''), SdkEvent 0 ''ready'', Render,
      Rerender (channel_props ''xyz''), Call CallPlay] (initial True 7) = Inl SdkError"
    by (simp only: append.simps)
  with r c ok strict show ?thesis
    by (simp only: simp_thms demo_switched_fields)
qed

text \<open>
  \<^bold>\<open>C2\<close> asks that every accessor of the handle returns its default while the instance
  is absent or the player is not ready. The accessors use the same guard, so the property
  fails in the same state: \<open>getVolume\<close> asks the new, not ready instance and returns its
  answer (1 here) instead of 0, and with an SDK whose methods throw the five accessors
  raise to the caller. \<open>isPaused\<close> and \<open>isReady\<close> do answer from the component's own
  values without touching the instance, but from those of the last render: \<open>isReady\<close>
  still says true here.
\<close>

theorem facade_accessor_reaches_unready_instance:
  "run sdk_ok [Mount (channel_props ''abc''), SdkEvent 0 ''ready'', Render,
      Rerender (channel_props ''xyz'')] (initial True 7) = Inr demo_switched
   \<and> playerRef demo_switched = Some 1 \<and> isPlayerReady demo_switched = False
   \<and> map_sum id (\<lambda>(v, s). (v, map calls (instances s))) (ref_getVolume sdk_ok demo_switched)
       = Inr (1, [[Destroy], [GetVolume]])
   \<and> ref_getVolume sdk_strict demo_switched = Inl SdkError
   \<and> ref_getMuted sdk_strict demo_switched = Inl SdkError
   \<and> ref_getCurrentTime sdk_strict demo_switched = Inl SdkError
   \<and> ref_getDuration sdk_strict demo_switched = Inl SdkError
   \<and> ref_getChannel sdk_strict demo_switched = Inl SdkError
   \<and> ref_isReady demo_switched = True \<and> ref_isPaused demo_switched = False
   \<and> call_ref sdk_strict CallIsReady demo_switched = Inr (JBoolean True, demo_switched)"
proof -
  have g: "guard demo_switched"
    by (simp add: guard_def)
  have "map_sum id (\<lambda>(v, s). (v, map calls (instances s))) (ref_getVolume sdk_ok demo_switched)
       = Inr (1, [[Destroy], [GetVolume]])"
    by (simp add: ref_getVolume_def g read_method_def call_method_def demo_switched_instances
        silent_playback_def)
  moreover have "ref_getVolume sdk_strict demo_switched = Inl SdkError"
    "ref_getMuted sdk_strict demo_switched = Inl SdkError"
    "ref_getCurrentTime sdk_strict demo_switched = Inl SdkError"
    "ref_getDuration sdk_strict demo_switched = Inl SdkError"
    "ref_getChannel sdk_strict demo_switched = Inl SdkError"
    by (simp_all add: ref_getVolume_def ref_getMuted_def ref_getCurrentTime_def
        ref_getDuration_def ref_getChannel_def g read_method_def call_method_def
        demo_switched_instances)
  moreover have "ref_isReady demo_switched = True" "ref_isPaused demo_switched = False"
    by (simp_all add: ref_isReady_def ref_isPaused_def)
  ultimately show ?thesis
    using demo_run [of sdk_ok] by simp
qed

section \<open>The event bridge\<close>

lemma notify_eq: "notify b c s = s\<lparr>host_log := host_log s @ (if b then [c] else [])\<rparr>"
  by (simp add: notify_def)

lemma listener_names:
  "''ready'' \<in> set sdk_events" "''play'' \<in> set sdk_events" "''pause'' \<in> set sdk_events"
  "''ended'' \<in> set sdk_events" "''seek'' \<in> set sdk_events"
  by (simp_all add: sdk_events_def)

text \<open>
  \<^bold>\<open>C6.\<close> When a live instance with the five listeners registered emits \<open>ready\<close>, the
  component becomes ready (loading off, error cleared), the paused flag becomes false and
  \<open>onReady\<close> is the one callback invoked; \<open>play\<close> sets paused to false and invokes
  \<open>onPlay\<close>; \<open>pause\<close> and \<open>ended\<close> set paused to true and invoke \<open>onPause\<close> and
  \<open>onEnded\<close>. Nothing else changes, and a callback that was not supplied is skipped
  silently: the step returns normally and the host log stays as it was.
\<close>

theorem event_bridge:
  assumes "i < length (instances s)" and "\<not> destroyed (instances s ! i)"
    and "handlers (instances s ! i) = sdk_events" and "captured (instances s ! i) = p"
  shows "sdk_emit k i ''ready'' s =
      Inr (s\<lparr>isLoading := False, error := None, isPlayerReady := True, isPaused := False,
             host_log := host_log s @ (if onReady p then [OnReady] else [])\<rparr>)
    \<and> sdk_emit k i ''play'' s =
      Inr (s\<lparr>isPaused := False, host_log := host_log s @ (if onPlay p then [OnPlay] else [])\<rparr>)
    \<and> sdk_emit k i ''pause'' s =
      Inr (s\<lparr>isPaused := True, host_log := host_log s @ (if onPause p then [OnPause] else [])\<rparr>)
    \<and> sdk_emit k i ''ended'' s =
      Inr (s\<lparr>isPaused := True, host_log := host_log s @ (if onEnded p then [OnEnded] else [])\<rparr>)"
  using assms
  by (simp add: sdk_emit_def listener_names listener_def ready_listener_def play_listener_def
      pause_listener_def ended_listener_def notify_eq)

theorem event_bridge_witness:
  "handlers (instances demo_mounted ! 0) = sdk_events
   \<and> sdk_emit sdk_ok 0 ''ready'' demo_mounted = Inr demo_ready
   \<and> sdk_emit sdk_ok 0 ''play'' demo_mounted =
       Inr (demo_mounted\<lparr>isPaused := False, host_log := [OnPlay]\<rparr>)
   \<and> sdk_emit sdk_ok 0 ''pause'' demo_ready =
       Inr (demo_ready\<lparr>isPaused := True, host_log := [OnReady, OnPause]\<rparr>)
   \<and> sdk_emit sdk_ok 0 ''ended'' demo_ready =
       Inr (demo_ready\<lparr>isPaused := True, host_log := [OnReady, OnEnded]\<rparr>)"
proof -
  have m: "demo_mounted\<lparr>isLoading := False, error := None, isPlayerReady := True,
      isPaused := False, host_log := [OnReady]\<rparr> = demo_ready"
    by (simp add: demo_ready_def)
  from event_bridge [OF demo_mounted_listening, of sdk_ok]
    event_bridge [OF demo_ready_listening, of sdk_ok]
  show ?thesis
    by (simp add: m)
qed

text \<open>
  \<^bold>\<open>C7.\<close> When a live instance with the listeners registered emits \<open>seek\<close>, the
  component calls \<open>getCurrentTime\<close> on that instance and, unless the SDK throws there,
  invokes \<open>onSeek\<close> (when supplied) with the time the instance answered; the paused flag,
  like every field other than the instance's call log and the host log, is unchanged.
\<close>

theorem seek_bridge:
  assumes "i < length (instances s)" and "\<not> destroyed (instances s ! i)"
    and "handlers (instances s ! i) = sdk_events" and "captured (instances s ! i) = p"
  shows "sdk_emit k i ''seek'' s =
      (if method_throws k (instances s ! i) GetCurrentTime then Inl SdkError
       else Inr (s\<lparr>instances := (instances s)[i := note_call GetCurrentTime (instances s ! i)],
                  host_log := host_log s @
                    (if onSeek p then [OnSeek (sdk_currentTime (playback (instances s ! i)))]
                     else [])\<rparr>))
    \<and> (\<forall>s'. sdk_emit k i ''seek'' s = Inr s' \<longrightarrow> isPaused s' = isPaused s)"
  using assms
  by (auto simp: sdk_emit_def listener_names listener_def seek_listener_def notify_eq
      read_method_def call_method_def then_do_def)

theorem seek_bridge_witness:
  "handlers (instances demo_ready ! 0) = sdk_events \<and> isPaused demo_ready = False
   \<and> sdk_emit sdk_ok 0 ''seek'' demo_ready =
       Inr (demo_ready\<lparr>instances := [note_call GetCurrentTime demo_instance],
              host_log := [OnReady, OnSeek 0]\<rparr>)
   \<and> sdk_emit sdk_broken 0 ''seek'' demo_ready = Inl SdkError"
proof -
  have t: "method_throws sdk_broken demo_instance GetCurrentTime"
    "\<not> method_throws sdk_ok demo_instance GetCurrentTime"
    "sdk_currentTime silent_playback = 0"
    by (simp_all add: sdk_broken_def sdk_ok_def silent_playback_def)
  from seek_bridge [OF demo_ready_listening, of sdk_ok]
    seek_bridge [OF demo_ready_listening, of sdk_broken]
  show ?thesis
    by (simp add: t)
qed

section \<open>Shapes of the lifecycle operations\<close>

lemma in_live: "i \<in> set (live s) \<longleftrightarrow> i < length (instances s) \<and> \<not> destroyed (instances s ! i)"
  by (auto simp: live_def)

lemma live_cong:
  assumes "map destroyed (instances s') = map destroyed (instances s)"
  shows "live s' = live s"
proof -
  from assms have len: "length (instances s') = length (instances s)"
    by (metis length_map)
  have "destroyed (instances s' ! i) = destroyed (instances s ! i)" if "i < length (instances s)" for i
    using that assms len by (metis nth_map)
  then show ?thesis
    by (auto simp: live_def len intro: filter_cong)
qed

lemma owned_at_most_one:
  assumes "owned s"
  shows "length (live s) \<le> 1"
proof -
  have d: "distinct (live s)"
    by (simp add: live_def)
  from assms have "set (live s) \<subseteq> set_option (playerRef s)"
    by (auto simp: owned_def)
  then have "card (set (live s)) \<le> card (set_option (playerRef s))"
    by (intro card_mono) simp_all
  also have "\<dots> \<le> 1"
    by (cases "playerRef s") simp_all
  finally show ?thesis
    using d by (simp add: distinct_card)
qed

lemma destroy_current_cases:
  assumes "destroy_current k s = Inr s'"
  obtains (none) "playerRef s = None" and "s' = s"
  | (some) i where "playerRef s = Some i" and "i < length (instances s)"
      and "s' = s\<lparr>instances := (instances s)[i := note_call Destroy (instances s ! i)],
                   playerRef := None, isPlayerReady := False\<rparr>"
  using assms
  by (auto simp: destroy_current_def call_method_Inr split: option.splits)

lemma add_listeners_frame:
  "add_listeners k i evs s = (b, s') \<Longrightarrow>
     \<exists>X. s' = s\<lparr>instances := X\<rparr> \<and> map destroyed X = map destroyed (instances s)
        \<and> map elementId X = map elementId (instances s)"
proof (induction evs arbitrary: s)
  case Nil
  then show ?case
    by (auto intro: exI [of _ "instances s"])
next
  case (Cons ev evs)
  show ?case
  proof (cases "addEventListener_throws k ev")
    case True
    with Cons.prems show ?thesis
      by (auto simp: addEventListener_def intro: exI [of _ "instances s"])
  next
    case False
    let ?s1 = "s\<lparr>instances := (instances s)
                  [i := (instances s ! i)\<lparr>handlers := handlers (instances s ! i) @ [ev]\<rparr>]\<rparr>"
    from False Cons.prems have "add_listeners k i evs ?s1 = (b, s')"
      by (simp add: addEventListener_def)
    from Cons.IH [OF this] obtain X where X: "s' = ?s1\<lparr>instances := X\<rparr>"
      "map destroyed X = map destroyed (instances ?s1)"
      "map elementId X = map elementId (instances ?s1)"
      by blast
    then show ?thesis
      by (auto simp: map_update_same)
  qed
qed

lemma try_create_cases:
  obtains (threw) "\<not> twitch s \<or> Player k pid (options_of p) = None"
      and "try_create k p pid s = catch_handler s"
  | (built) X b where "twitch s" and "Player k pid (options_of p) \<noteq> None"
      and "map destroyed X = map destroyed (instances s) @ [False]"
      and "map elementId X = map elementId (instances s) @ [pid]"
      and "try_create k p pid s = (if b then catch_handler else id)
             (s\<lparr>playerRef := Some (length (instances s)), instances := X\<rparr>)"
proof (cases "new_Player k pid (options_of p) p s")
  case (Inl e)
  then have "try_create k p pid s = catch_handler s"
    by (simp add: try_create_def)
  moreover from Inl have "\<not> twitch s \<or> Player k pid (options_of p) = None"
    by (auto simp: new_Player_def split: if_splits option.splits)
  ultimately show ?thesis
    by (intro threw)
next
  case (Inr r)
  let ?i = "length (instances s)"
  from Inr obtain pb where tws: "twitch s" and pb: "Player k pid (options_of p) = Some pb"
    and r: "r = (?i,
            s\<lparr>instances := instances s @
                [\<lparr>elementId = pid, options = options_of p, handlers = [], captured = p,
                  calls = [], destroyed = False, playback = pb\<rparr>]\<rparr>)"
    by (auto simp: new_Player_def split: if_splits option.splits)
  let ?s3 = "(snd r)\<lparr>playerRef := Some ?i\<rparr>"
  obtain b s4 where al: "add_listeners k ?i sdk_events ?s3 = (b, s4)"
    by (cases "add_listeners k ?i sdk_events ?s3") auto
  from add_listeners_frame [OF al] obtain X where X: "s4 = ?s3\<lparr>instances := X\<rparr>"
    "map destroyed X = map destroyed (instances ?s3)"
    "map elementId X = map elementId (instances ?s3)"
    by blast
  from Inr r al have "try_create k p pid s = (if b then catch_handler else id) s4"
    by (cases b) (simp_all add: try_create_def)
  with X r have "try_create k p pid s = (if b then catch_handler else id)
                  (s\<lparr>playerRef := Some ?i, instances := X\<rparr>)"
    by simp
  moreover from X r have "map destroyed X = map destroyed (instances s) @ [False]"
    "map elementId X = map elementId (instances s) @ [pid]"
    by simp_all
  ultimately show ?thesis
    using tws pb by (intro built [of X b]) simp_all
qed

lemma loadTwitchPlayer_cases:
  assumes "loadTwitchPlayer k p s = Inr s'"
  obtains (absent) "containerRef s = None" and "s' = s"
  | (present) s1 where "containerRef s \<noteq> None" and "destroy_current k s = Inr s1"
      and "s' = try_create k p (playerId (now s))
                  (s1\<lparr>containerRef := Some (container_html (playerId (now s)))\<rparr>)"
proof (cases "containerRef s")
  case None
  with assms have "s' = s"
    by (simp add: loadTwitchPlayer_def)
  with None show ?thesis
    by (rule absent)
next
  case (Some h)
  with assms obtain s1 where s1: "destroy_current k s = Inr s1"
    and s': "s' = try_create k p (playerId (now s1))
                  (s1\<lparr>containerRef := Some (container_html (playerId (now s1)))\<rparr>)"
    by (auto simp: loadTwitchPlayer_def Let_def)
  from s1 have "now s1 = now s"
    by (auto elim!: destroy_current_cases)
  with s1 s' Some show ?thesis
    by (intro present [of s1]) simp_all
qed

section \<open>The idle timer of the overlay\<close>

lemma hide_callback_twice [simp]: "hide_callback (hide_callback s) = hide_callback s"
  by (simp add: hide_callback_def)

lemma fold_hide_callback:
  "fold (\<lambda>tm. hide_callback) due s = (if due = [] then s else hide_callback s)"
proof (induction due arbitrary: s)
  case Nil
  show ?case by simp
next
  case (Cons tm due)
  then show ?case
    by (cases due) simp_all
qed

lemma elapse_eq:
  "elapse d s =
     (if \<exists>tm \<in> set (timers s). snd tm \<le> now s + d
      then s\<lparr>now := now s + d, timers := filter (\<lambda>tm. \<not> snd tm \<le> now s + d) (timers s),
             showControls := False, hideControlsTimeoutRef := None\<rparr>
      else s\<lparr>now := now s + d, timers := filter (\<lambda>tm. \<not> snd tm \<le> now s + d) (timers s)\<rparr>)"
  by (auto simp: elapse_def Let_def fold_hide_callback hide_callback_def filter_empty_conv)

lemma elapse_fields [simp]:
  "now (elapse d s) = now s + d"
  "timers (elapse d s) = filter (\<lambda>tm. \<not> snd tm \<le> now s + d) (timers s)"
  "showControls (elapse d s) = (showControls s \<and> \<not> (\<exists>tm \<in> set (timers s). snd tm \<le> now s + d))"
  "hideControlsTimeoutRef (elapse d s) =
     (if \<exists>tm \<in> set (timers s). snd tm \<le> now s + d then None else hideControlsTimeoutRef s)"
  "next_timer (elapse d s) = next_timer s"
  "phase (elapse d s) = phase s" "props (elapse d s) = props s"
  "rendered (elapse d s) = rendered s"
  "containerRef (elapse d s) = containerRef s" "playerRef (elapse d s) = playerRef s"
  "isLoading (elapse d s) = isLoading s" "error (elapse d s) = error s"
  "isPlayerReady (elapse d s) = isPlayerReady s" "isPaused (elapse d s) = isPaused s"
  "twitch (elapse d s) = twitch s" "head_scripts (elapse d s) = head_scripts s"
  "instances (elapse d s) = instances s" "console (elapse d s) = console s"
  "host_log (elapse d s) = host_log s" "state.more (elapse d s) = state.more s"
  by (simp_all add: elapse_eq)

lemma fired_split:
  "(\<exists>tm \<in> set (timers s). snd tm \<le> now s + (a + b)) \<longleftrightarrow>
     (\<exists>tm \<in> set (timers s). snd tm \<le> now s + a)
     \<or> (\<exists>tm \<in> set (timers (elapse a s)). snd tm \<le> now (elapse a s) + b)"
  (is "?C \<longleftrightarrow> ?A \<or> ?B")
proof
  assume ?C
  then obtain tm where tm: "tm \<in> set (timers s)" "snd tm \<le> now s + (a + b)"
    by blast
  show "?A \<or> ?B"
  proof (cases "snd tm \<le> now s + a")
    case True
    with tm show ?thesis by blast
  next
    case False
    with tm have "tm \<in> set (timers (elapse a s))" "snd tm \<le> now (elapse a s) + b"
      by (simp_all add: add.assoc)
    then show ?thesis by blast
  qed
next
  assume "?A \<or> ?B"
  then show ?C
  proof
    assume ?A
    then obtain tm where "tm \<in> set (timers s)" "snd tm \<le> now s + a"
      by blast
    then have "tm \<in> set (timers s)" "snd tm \<le> now s + (a + b)"
      by simp_all
    then show ?C by blast
  next
    assume ?B
    then obtain tm where "tm \<in> set (timers (elapse a s))" "snd tm \<le> now (elapse a s) + b"
      by blast
    then have "tm \<in> set (timers s)" "snd tm \<le> now s + (a + b)"
      by (simp_all add: add.assoc)
    then show ?C by blast
  qed
qed

lemma elapse_add: "elapse b (elapse a s) = elapse (a + b) s"
proof (rule state.equality)
  show "timers (elapse b (elapse a s)) = timers (elapse (a + b) s)"
    by (auto simp: add.assoc intro!: filter_cong)
  have p1: "((sc \<and> \<not> A) \<and> \<not> B) = (sc \<and> \<not> (A \<or> B))" for sc A B
    by blast
  have p2: "(if B then None else if A then None else h) = (if A \<or> B then None else h)"
    for A B and h :: "nat option"
    by simp
  show "showControls (elapse b (elapse a s)) = showControls (elapse (a + b) s)"
    by (simp only: elapse_fields(3) fired_split [of s a b] p1)
  show "hideControlsTimeoutRef (elapse b (elapse a s)) = hideControlsTimeoutRef (elapse (a + b) s)"
    by (simp only: elapse_fields(4) fired_split [of s a b] p2)
qed (simp_all add: add.assoc)

lemma fold_elapse: "fold elapse ds s = (if ds = [] then s else elapse (sum_list ds) s)"
proof (induction ds arbitrary: s)
  case Nil
  show ?case by simp
next
  case (Cons d ds)
  show ?case
    by (simp add: Cons.IH elapse_add)
qed

lemma clearHideTimeout_ok:
  assumes "timer_ok s"
  shows "timers (clearHideTimeout s) = []" and "hideControlsTimeoutRef (clearHideTimeout s) = None"
    and "timer_ok (clearHideTimeout s)"
proof -
  show t: "timers (clearHideTimeout s) = []"
    using assms
    by (cases "hideControlsTimeoutRef s")
      (auto simp: timer_ok_def clearHideTimeout_def clearTimeout_def map_eq_Cons_conv)
  show r: "hideControlsTimeoutRef (clearHideTimeout s) = None"
    using assms
    by (cases "hideControlsTimeoutRef s") (auto simp: timer_ok_def clearHideTimeout_def)
  have "next_timer (clearHideTimeout s) = next_timer s"
    by (simp add: clearHideTimeout_def clearTimeout_def split: option.splits)
  with t r assms show "timer_ok (clearHideTimeout s)"
    by (simp add: timer_ok_def)
qed

lemma clearHideTimeout_fields [simp]:
  "next_timer (clearHideTimeout s) = next_timer s"
  "now (clearHideTimeout s) = now s"
  "showControls (clearHideTimeout s) = showControls s"
  by (simp_all add: clearHideTimeout_def clearTimeout_def split: option.splits)

lemma timer_ok_frame:
  assumes "timers s' = timers s" and "hideControlsTimeoutRef s' = hideControlsTimeoutRef s"
    and "next_timer s' = next_timer s"
  shows "timer_ok s' = timer_ok s"
  using assms by (simp add: timer_ok_def)

lemma timer_ok_showControls [simp]: "timer_ok (s\<lparr>showControls := b\<rparr>) = timer_ok s"
  by (simp add: timer_ok_def)

lemma timer_ok_at_most_one: "timer_ok s \<Longrightarrow> length (timers s) \<le> 1"
proof -
  assume "timer_ok s"
  then have "length (map fst (timers s)) \<le> 1"
    by (simp add: timer_ok_def split: option.splits)
  then show ?thesis
    by simp
qed

lemma handleMouseActivity_ok:
  assumes "timer_ok s"
  shows "showControls (handleMouseActivity s)"
    and "timers (handleMouseActivity s) = [(next_timer s, now s + 3000)]"
    and "hideControlsTimeoutRef (handleMouseActivity s) = Some (next_timer s)"
    and "now (handleMouseActivity s) = now s"
    and "timer_ok (handleMouseActivity s)"
proof -
  from assms have "timer_ok (s\<lparr>showControls := True\<rparr>)"
    by simp
  from clearHideTimeout_ok(1) [OF this]
  have t: "timers (clearHideTimeout (s\<lparr>showControls := True\<rparr>)) = []" .
  show "showControls (handleMouseActivity s)"
    and "timers (handleMouseActivity s) = [(next_timer s, now s + 3000)]"
    and "hideControlsTimeoutRef (handleMouseActivity s) = Some (next_timer s)"
    and "now (handleMouseActivity s) = now s"
    using t by (simp_all add: handleMouseActivity_def setTimeout_def Let_def)
  then show "timer_ok (handleMouseActivity s)"
    using assms by (simp add: timer_ok_def handleMouseActivity_def setTimeout_def Let_def)
qed

lemma handleMouseLeave_ok:
  assumes "timer_ok s"
  shows "\<not> showControls (handleMouseLeave s)"
    and "timers (handleMouseLeave s) = []"
    and "hideControlsTimeoutRef (handleMouseLeave s) = None"
    and "timer_ok (handleMouseLeave s)"
proof -
  from assms have ok: "timer_ok (s\<lparr>showControls := False\<rparr>)"
    by simp
  show "\<not> showControls (handleMouseLeave s)"
    by (simp add: handleMouseLeave_def)
  from clearHideTimeout_ok [OF ok]
  show "timers (handleMouseLeave s) = []"
    and "hideControlsTimeoutRef (handleMouseLeave s) = None"
    and "timer_ok (handleMouseLeave s)"
    by (simp_all add: handleMouseLeave_def)
qed

lemma elapse_ok:
  assumes "timer_ok s"
  shows "timer_ok (elapse d s)"
proof (cases "hideControlsTimeoutRef s")
  case None
  with assms show ?thesis
    by (simp add: timer_ok_def)
next
  case (Some i)
  with assms obtain due where t: "timers s = [(i, due)]"
    by (auto simp: timer_ok_def map_eq_Cons_conv)
  with assms Some show ?thesis
    by (cases "due \<le> now s + d") (simp_all add: timer_ok_def)
qed

lemma calls_only_refl [simp]: "calls_only s s"
  by (auto simp: calls_only_def intro: exI [of _ "instances s"])

lemma calls_onlyE:
  assumes "calls_only s s'"
  obtains X where "s' = s\<lparr>instances := X\<rparr>" and "map destroyed X = map destroyed (instances s)"
    and "map elementId X = map elementId (instances s)"
  using assms by (auto simp: calls_only_def)

lemma call_method_calls_only:
  assumes "call_method k r c s = Inr s'" and "c \<noteq> Destroy"
  shows "calls_only s s'"
  using assms by (auto simp: call_method_Inr calls_only_def map_update_same)

lemma read_method_calls_only:
  assumes "read_method k r c g s = Inr (v, s')" and "c \<noteq> Destroy"
  shows "calls_only s s'"
  using assms by (auto simp: read_method_Inr calls_only_def map_update_same)

lemma ref_mutators_calls_only:
  "ref_play k s = Inr s' \<Longrightarrow> calls_only s s'"
  "ref_pause k s = Inr s' \<Longrightarrow> calls_only s s'"
  "ref_togglePlayPause k s = Inr s' \<Longrightarrow> calls_only s s'"
  "ref_seek k t s = Inr s' \<Longrightarrow> calls_only s s'"
  "ref_setVolume k v s = Inr s' \<Longrightarrow> calls_only s s'"
  "ref_setMuted k m s = Inr s' \<Longrightarrow> calls_only s s'"
  "ref_setChannel k c s = Inr s' \<Longrightarrow> calls_only s s'"
  "ref_setVideo k vid ts s = Inr s' \<Longrightarrow> calls_only s s'"
  by (auto simp: ref_play_def ref_pause_def ref_togglePlayPause_def ref_seek_def
      ref_setVolume_def ref_setMuted_def ref_setChannel_def ref_setVideo_def
      split: if_splits intro: call_method_calls_only)

lemma ref_accessors_calls_only:
  "ref_getVolume k s = Inr (x, s') \<Longrightarrow> calls_only s s'"
  "ref_getMuted k s = Inr (y, s') \<Longrightarrow> calls_only s s'"
  "ref_getCurrentTime k s = Inr (x, s') \<Longrightarrow> calls_only s s'"
  "ref_getDuration k s = Inr (x, s') \<Longrightarrow> calls_only s s'"
  "ref_getChannel k s = Inr (z, s') \<Longrightarrow> calls_only s s'"
  by (auto simp: ref_getVolume_def ref_getMuted_def ref_getCurrentTime_def ref_getDuration_def
      ref_getChannel_def split: if_splits intro: read_method_calls_only)

lemma call_ref_calls_only:
  assumes "call_ref k c s = Inr (v, s')"
  shows "calls_only s s'"
  using assms
  by (cases c)
    (auto simp: returning_def returning_void_def
      intro: ref_mutators_calls_only ref_accessors_calls_only)

lemma handlePlayPause_shape:
  assumes "handlePlayPause k s = Inr s'"
  obtains s1 where "calls_only s s1" and "s' = handleMouseActivity s1"
proof -
  from assms obtain s1 where
    s1: "(if guard s
          then (if shown_isPaused (rendered s) then call_method k (playerRef s) Play s
                else call_method k (playerRef s) Pause s)
          else Inr s) = Inr s1"
    and s': "s' = handleMouseActivity s1"
    by (auto simp: handlePlayPause_def)
  from s1 have "calls_only s s1"
    by (auto split: if_splits intro: call_method_calls_only)
  with s' show ?thesis
    by (rule that [rotated])
qed

lemma sdk_emit_shape:
  assumes "sdk_emit k i ev s = Inr s'"
  obtains (ready) h where
      "s' = s\<lparr>isLoading := False, error := None, isPlayerReady := True, isPaused := False,
               host_log := h\<rparr>"
  | (other) s1 p h where "calls_only s s1" and "s' = s1\<lparr>isPaused := p, host_log := h\<rparr>"
proof (cases "ev = ''ready'' \<and> i < length (instances s) \<and> \<not> destroyed (instances s ! i)
         \<and> ev \<in> set (handlers (instances s ! i))")
  case True
  with assms show ?thesis
    by (intro ready) (auto simp: sdk_emit_def listener_def ready_listener_def notify_eq)
next
  case False
  have "\<exists>s1 p h. calls_only s s1 \<and> s' = s1\<lparr>isPaused := p, host_log := h\<rparr>"
  proof (cases "i < length (instances s) \<and> \<not> destroyed (instances s ! i)
         \<and> ev \<in> set (handlers (instances s ! i))")
    case False
    with assms have "s' = s\<lparr>isPaused := isPaused s, host_log := host_log s\<rparr>"
      by (auto simp: sdk_emit_def)
    then show ?thesis
      using calls_only_refl by blast
  next
    case True
    with \<open>\<not> (ev = ''ready'' \<and> _)\<close> have nr: "ev \<noteq> ''ready''"
      by blast
    from True assms have l: "listener k i (captured (instances s ! i)) ev s = Inr s'"
      by (simp add: sdk_emit_def)
    let ?p = "captured (instances s ! i)"
    consider "ev = ''play''" | "ev = ''pause''" | "ev = ''ended''" | "ev = ''seek''"
      | "ev \<notin> {''ready'', ''play'', ''pause'', ''ended'', ''seek''}"
      using nr by blast
    then show ?thesis
    proof cases
      case 1
      with l have "s' = s\<lparr>isPaused := False, host_log := host_log s @ (if onPlay ?p then [OnPlay] else [])\<rparr>"
        by (simp add: listener_def play_listener_def notify_eq)
      then show ?thesis using calls_only_refl by blast
    next
      case 2
      with l have "s' = s\<lparr>isPaused := True, host_log := host_log s @ (if onPause ?p then [OnPause] else [])\<rparr>"
        by (simp add: listener_def pause_listener_def notify_eq)
      then show ?thesis using calls_only_refl by blast
    next
      case 3
      with l have "s' = s\<lparr>isPaused := True, host_log := host_log s @ (if onEnded ?p then [OnEnded] else [])\<rparr>"
        by (simp add: listener_def ended_listener_def notify_eq)
      then show ?thesis using calls_only_refl by blast
    next
      case 4
      with l obtain t s1 where rm: "read_method k (Some i) GetCurrentTime sdk_currentTime s = Inr (t, s1)"
        and s': "s' = notify (onSeek ?p) (OnSeek t) s1"
        by (auto simp: listener_def seek_listener_def)
      from rm have co: "calls_only s s1"
        by (rule read_method_calls_only) simp
      then have "isPaused s1 = isPaused s"
        by (auto elim: calls_onlyE)
      with s' have "s' = s1\<lparr>isPaused := isPaused s, host_log := host_log s1 @ (if onSeek ?p then [OnSeek t] else [])\<rparr>"
        by (simp add: notify_eq)
      with co show ?thesis by blast
    next
      case 5
      with l have "s' = s\<lparr>isPaused := isPaused s, host_log := host_log s\<rparr>"
        by (simp add: listener_def)
      then show ?thesis using calls_only_refl by blast
    qed
  qed
  then show ?thesis
    using other by blast
qed

lemma script_loaded_shape:
  assumes "script_loaded k n s = Inr s'"
  obtains (stale) "\<not> pending n s" and "s' = s"
  | (fresh) "pending n s"
      and "loadTwitchPlayer k (onload_props (head_scripts s ! n)) ((settle n s)\<lparr>twitch := True\<rparr>) = Inr s'"
  using assms by (auto simp: script_loaded_def split: if_splits)

lemma clearHideTimeout_frame [simp]:
  "phase (clearHideTimeout s) = phase s" "props (clearHideTimeout s) = props s"
  "rendered (clearHideTimeout s) = rendered s"
  "containerRef (clearHideTimeout s) = containerRef s" "playerRef (clearHideTimeout s) = playerRef s"
  "isLoading (clearHideTimeout s) = isLoading s" "error (clearHideTimeout s) = error s"
  "isPlayerReady (clearHideTimeout s) = isPlayerReady s" "isPaused (clearHideTimeout s) = isPaused s"
  "twitch (clearHideTimeout s) = twitch s" "head_scripts (clearHideTimeout s) = head_scripts s"
  "instances (clearHideTimeout s) = instances s" "console (clearHideTimeout s) = console s"
  "host_log (clearHideTimeout s) = host_log s"
  by (simp_all add: clearHideTimeout_def clearTimeout_def split: option.splits)

lemma handleMouseActivity_frame [simp]:
  "phase (handleMouseActivity s) = phase s" "props (handleMouseActivity s) = props s"
  "rendered (handleMouseActivity s) = rendered s"
  "containerRef (handleMouseActivity s) = containerRef s" "playerRef (handleMouseActivity s) = playerRef s"
  "isLoading (handleMouseActivity s) = isLoading s" "error (handleMouseActivity s) = error s"
  "isPlayerReady (handleMouseActivity s) = isPlayerReady s" "isPaused (handleMouseActivity s) = isPaused s"
  "twitch (handleMouseActivity s) = twitch s" "head_scripts (handleMouseActivity s) = head_scripts s"
  "now (handleMouseActivity s) = now s" "instances (handleMouseActivity s) = instances s"
  "console (handleMouseActivity s) = console s" "host_log (handleMouseActivity s) = host_log s"
  by (simp_all add: handleMouseActivity_def setTimeout_def Let_def)

lemma handleMouseLeave_frame [simp]:
  "phase (handleMouseLeave s) = phase s" "props (handleMouseLeave s) = props s"
  "rendered (handleMouseLeave s) = rendered s"
  "containerRef (handleMouseLeave s) = containerRef s" "playerRef (handleMouseLeave s) = playerRef s"
  "isLoading (handleMouseLeave s) = isLoading s" "error (handleMouseLeave s) = error s"
  "isPlayerReady (handleMouseLeave s) = isPlayerReady s" "isPaused (handleMouseLeave s) = isPaused s"
  "twitch (handleMouseLeave s) = twitch s" "head_scripts (handleMouseLeave s) = head_scripts s"
  "now (handleMouseLeave s) = now s" "instances (handleMouseLeave s) = instances s"
  "console (handleMouseLeave s) = console s" "host_log (handleMouseLeave s) = host_log s"
  by (simp_all add: handleMouseLeave_def)

lemma commit_frame [simp]:
  "phase (commit s) = phase s" "props (commit s) = props s"
  "playerRef (commit s) = playerRef s" "isLoading (commit s) = isLoading s"
  "error (commit s) = error s" "isPlayerReady (commit s) = isPlayerReady s"
  "isPaused (commit s) = isPaused s" "showControls (commit s) = showControls s"
  "hideControlsTimeoutRef (commit s) = hideControlsTimeoutRef s" "twitch (commit s) = twitch s"
  "head_scripts (commit s) = head_scripts s" "now (commit s) = now s"
  "timers (commit s) = timers s" "next_timer (commit s) = next_timer s"
  "instances (commit s) = instances s" "console (commit s) = console s"
  "host_log (commit s) = host_log s" "rendered (commit s) = current s"
  by (simp_all add: commit_def split: view.splits)

lemma catch_handler_frame [simp]:
  "phase (catch_handler s) = phase s" "props (catch_handler s) = props s"
  "rendered (catch_handler s) = rendered s"
  "containerRef (catch_handler s) = containerRef s" "playerRef (catch_handler s) = playerRef s"
  "isPaused (catch_handler s) = isPaused s" "showControls (catch_handler s) = showControls s"
  "hideControlsTimeoutRef (catch_handler s) = hideControlsTimeoutRef s" "twitch (catch_handler s) = twitch s"
  "head_scripts (catch_handler s) = head_scripts s" "now (catch_handler s) = now s"
  "timers (catch_handler s) = timers s" "next_timer (catch_handler s) = next_timer s"
  "instances (catch_handler s) = instances s" "host_log (catch_handler s) = host_log s"
  by (simp_all add: catch_handler_def)

lemma in_live_flags:
  "i \<in> set (live s) \<longleftrightarrow>
     i < length (map destroyed (instances s)) \<and> \<not> map destroyed (instances s) ! i"
  by (auto simp: in_live)

lemma owned_frame:
  assumes "playerRef s' = playerRef s"
    and "map destroyed (instances s') = map destroyed (instances s)"
  shows "owned s' = owned s"
  using live_cong [OF assms(2)] assms(1) by (simp add: owned_def)

lemma owned_calls_only:
  assumes "calls_only s s'"
  shows "owned s' = owned s"
  using assms by (auto elim!: calls_onlyE intro!: owned_frame)

lemma no_live_owned: "live s = [] \<Longrightarrow> owned s"
  by (simp add: owned_def)

lemma destroy_current_clears:
  assumes "owned s" and "destroy_current k s = Inr s'"
  shows "live s' = []" and "playerRef s' = None"
proof -
  from assms(2) show "playerRef s' = None"
    by (auto elim!: destroy_current_cases)
  have "i \<notin> set (live s')" for i
    using assms(2)
  proof (cases rule: destroy_current_cases)
    case none
    with assms(1) show ?thesis
      by (auto simp: owned_def)
  next
    case (some j)
    show ?thesis
    proof
      assume "i \<in> set (live s')"
      with some have i: "i < length (instances s)"
        and nd: "\<not> destroyed ((instances s)[j := note_call Destroy (instances s ! j)] ! i)"
        by (simp_all add: in_live)
      from nd some(2) have "i \<noteq> j"
        by auto
      with nd i have "i \<in> set (live s)"
        by (simp add: in_live)
      with assms(1) some(1) \<open>i \<noteq> j\<close> show False
        by (auto simp: owned_def)
    qed
  qed
  then show "live s' = []"
    by (cases "live s'") auto
qed

lemma try_create_owned:
  assumes "live s = []"
  shows "owned (try_create k p pid s)"
proof (cases rule: try_create_cases [of s k pid p])
  case threw
  have "live (catch_handler s) = live s"
    by (rule live_cong) simp
  with threw assms show ?thesis
    by (simp add: no_live_owned)
next
  case (built X b)
  let ?n = "length (instances s)"
  let ?s' = "s\<lparr>playerRef := Some ?n, instances := X\<rparr>"
  have "i = ?n" if "i \<in> set (live ?s')" for i
  proof (rule ccontr)
    assume "i \<noteq> ?n"
    from that have "i < length (map destroyed X)" and nd: "\<not> map destroyed X ! i"
      by (simp_all add: in_live_flags)
    with built(3) \<open>i \<noteq> ?n\<close> have "i < ?n"
      by simp
    with nd built(3) have "\<not> destroyed (instances s ! i)"
      by (simp add: nth_append)
    with \<open>i < ?n\<close> have "i \<in> set (live s)"
      by (simp add: in_live)
    with assms show False
      by simp
  qed
  then have "owned ?s'"
    by (auto simp: owned_def)
  moreover have "owned (catch_handler ?s') = owned ?s'"
    by (rule owned_frame) simp_all
  ultimately show ?thesis
    using built(5) by (cases b) simp_all
qed

lemma loadTwitchPlayer_owned:
  assumes "owned s" and "loadTwitchPlayer k p s = Inr s'"
  shows "owned s'"
  using assms(2)
proof (cases rule: loadTwitchPlayer_cases)
  case absent
  with assms(1) show ?thesis by simp
next
  case (present s1)
  from destroy_current_clears(1) [OF assms(1) present(2)]
  have "live (s1\<lparr>containerRef := Some (container_html (playerId (now s)))\<rparr>) = []"
    by (simp add: live_def)
  then show ?thesis
    unfolding present(3) by (rule try_create_owned)
qed

lemma effect_owned:
  assumes "owned s" and "effect k s = Inr s'"
  shows "owned s'"
proof (cases "twitch s")
  case True
  with assms(2) have "loadTwitchPlayer k (props s) s = Inr s'"
    by (simp add: effect_def)
  with assms(1) show ?thesis
    by (rule loadTwitchPlayer_owned)
next
  case False
  with assms(2) have "s' = s\<lparr>head_scripts := head_scripts s @
      [\<lparr>src = embed_url, onload_props = props s, settled = False\<rparr>]\<rparr>"
    by (auto simp: effect_def)
  then have "owned s' = owned s"
    by (intro owned_frame) simp_all
  with assms(1) show ?thesis by simp
qed

lemma run_invariant:
  assumes "I s0"
    and "\<And>e s s'. I s \<Longrightarrow> handle k e s = Inr s' \<Longrightarrow> I s'"
    and "run k evs s0 = Inr s"
  shows "I s"
  using assms(1,3)
proof (induction evs arbitrary: s0)
  case Nil
  then show ?case by simp
next
  case (Cons e evs)
  from Cons.prems(2) obtain s1 where "handle k e s0 = Inr s1" and "run k evs s1 = Inr s"
    by (auto simp del: handle.simps)
  with Cons.prems(1) assms(2) Cons.IH show ?case
    by blast
qed

lemma cleanup_clears:
  assumes "owned s" and "cleanup k s = Inr s'"
  shows "live s' = []" and "playerRef s' = None"
proof -
  have "owned (clearHideTimeout s) = owned s"
    by (rule owned_frame) simp_all
  with assms(1) have "owned (clearHideTimeout s)"
    by simp
  from destroy_current_clears [OF this] assms(2)
  show "live s' = []" and "playerRef s' = None"
    by (simp_all add: cleanup_def)
qed

lemma script_loaded_owned:
  assumes "owned s" and "script_loaded k n s = Inr s'"
  shows "owned s'"
  using assms(2)
proof (cases rule: script_loaded_shape)
  case stale
  with assms(1) show ?thesis by simp
next
  case fresh
  have "owned ((settle n s)\<lparr>twitch := True\<rparr>) = owned s"
    by (rule owned_frame) (simp_all add: settle_def)
  with assms(1) have "owned ((settle n s)\<lparr>twitch := True\<rparr>)"
    by simp
  then show ?thesis
    using fresh(2) by (rule loadTwitchPlayer_owned)
qed

lemma sdk_emit_owned:
  assumes "owned s" and "sdk_emit k i ev s = Inr s'"
  shows "owned s'"
  using assms(2)
proof (cases rule: sdk_emit_shape)
  case (ready h)
  then have "owned s' = owned s"
    by (intro owned_frame) simp_all
  with assms(1) show ?thesis by simp
next
  case (other s1 p h)
  then have "owned s' = owned s1"
    by (intro owned_frame) simp_all
  with other(1) assms(1) show ?thesis
    by (simp add: owned_calls_only)
qed

lemma sdk_change_owned: "owned (sdk_change i pb s) = owned s"
  by (rule owned_frame) (simp_all add: sdk_change_def map_update_same)

lemma handle_owned:
  assumes "owned s" and "handle k e s = Inr s'"
  shows "owned s'"
proof (cases e)
  case (Mount p)
  show ?thesis
  proof (cases "phase s = NotMounted")
    case True
    have "owned (commit (s\<lparr>phase := Mounted, props := p\<rparr>)) = owned s"
      by (rule owned_frame) simp_all
    with assms True Mount show ?thesis
      by (auto dest: effect_owned [rotated])
  next
    case False
    with assms Mount show ?thesis by simp
  qed
next
  case (Rerender p)
  show ?thesis
  proof (cases "phase s = Mounted")
    case True
    with assms(2) Rerender obtain s1 where c: "cleanup k (commit (s\<lparr>props := p\<rparr>)) = Inr s1"
      and e: "effect k s1 = Inr s'"
      by auto
    have "owned (commit (s\<lparr>props := p\<rparr>)) = owned s"
      by (rule owned_frame) simp_all
    with assms(1) have "owned (commit (s\<lparr>props := p\<rparr>))"
      by simp
    from cleanup_clears(1) [OF this c] have "owned s1"
      by (rule no_live_owned)
    then show ?thesis
      using e by (rule effect_owned)
  next
    case False
    with assms Rerender show ?thesis by simp
  qed
next
  case Render
  with assms(2) have "owned s' = owned s"
    by (intro owned_frame) auto
  with assms(1) show ?thesis by simp
next
  case Unmount
  show ?thesis
  proof (cases "phase s = Mounted")
    case True
    with assms(2) Unmount
    have c: "cleanup k (s\<lparr>phase := Unmounted, containerRef := None\<rparr>) = Inr s'"
      by simp
    have "owned (s\<lparr>phase := Unmounted, containerRef := None\<rparr>) = owned s"
      by (rule owned_frame) simp_all
    with assms(1) have "owned (s\<lparr>phase := Unmounted, containerRef := None\<rparr>)"
      by simp
    from cleanup_clears(1) [OF this c] show ?thesis
      by (rule no_live_owned)
  next
    case False
    with assms Unmount show ?thesis by simp
  qed
next
  case (ScriptLoaded n)
  with assms show ?thesis
    by (auto dest: script_loaded_owned [rotated])
next
  case (ScriptFailed n)
  with assms(2) have "owned s' = owned s"
    by (intro owned_frame) (auto simp: script_failed_def script_onerror_def settle_def)
  with assms(1) show ?thesis by simp
next
  case (SdkEvent i ev)
  with assms show ?thesis
    by (auto dest: sdk_emit_owned [rotated])
next
  case (SdkChange i pb)
  with assms show ?thesis
    by (auto simp: sdk_change_owned)
next
  case MouseMove
  with assms(2) have "owned s' = owned s"
    by (intro owned_frame) auto
  with assms(1) show ?thesis by simp
next
  case Click
  with assms(2) have "owned s' = owned s"
    by (intro owned_frame) auto
  with assms(1) show ?thesis by simp
next
  case MouseLeave
  with assms(2) have "owned s' = owned s"
    by (intro owned_frame) auto
  with assms(1) show ?thesis by simp
next
  case ButtonClick
  show ?thesis
  proof (cases "surface_rendered s \<and> shown_isPlayerReady (rendered s)")
    case True
    with assms(2) ButtonClick obtain s1 where h: "handlePlayPause k s = Inr s1"
      and s': "s' = handleMouseActivity s1"
      by auto
    from h obtain s0 where "calls_only s s0" and s1: "s1 = handleMouseActivity s0"
      by (rule handlePlayPause_shape)
    with assms(1) have "owned s0"
      by (simp add: owned_calls_only)
    moreover have "owned s' = owned s0"
      unfolding s' s1 by (rule owned_frame) simp_all
    ultimately show ?thesis by simp
  next
    case False
    with assms ButtonClick show ?thesis by auto
  qed
next
  case (Elapse d)
  with assms(2) have "owned s' = owned s"
    by (intro owned_frame) auto
  with assms(1) show ?thesis by simp
next
  case (Call c)
  show ?thesis
  proof (cases "phase s = Mounted")
    case True
    with assms(2) Call obtain v where "call_ref k c s = Inr (v, s')"
      by auto
    then have "calls_only s s'"
      by (rule call_ref_calls_only)
    with assms(1) show ?thesis
      by (simp add: owned_calls_only)
  next
    case False
    with assms Call show ?thesis by simp
  qed
qed

lemma initial_owned: "owned (initial tw t0)"
  by (simp add: owned_def live_def initial_def)

lemma reachable_owned:
  assumes "run k evs (initial tw t0) = Inr s"
  shows "owned s"
  using initial_owned handle_owned assms by (rule run_invariant)

lemma try_create_live:
  assumes "live s = []"
  shows "set (live (try_create k p pid s)) \<subseteq> {length (instances s)}"
proof (cases rule: try_create_cases [of s k pid p])
  case threw
  have "live (catch_handler s) = live s"
    by (rule live_cong) simp
  with threw assms show ?thesis
    by simp
next
  case (built X b)
  let ?n = "length (instances s)"
  let ?s' = "s\<lparr>playerRef := Some ?n, instances := X\<rparr>"
  have "owned (try_create k p pid s)"
    using assms by (rule try_create_owned)
  moreover have "playerRef (try_create k p pid s) = Some ?n"
    using built(5) by (cases b) simp_all
  ultimately show ?thesis
    by (auto simp: owned_def)
qed

lemma loadTwitchPlayer_live:
  assumes "owned s" and "loadTwitchPlayer k p s = Inr s'" and "containerRef s \<noteq> None"
  shows "set (live s') \<subseteq> {length (instances s)}"
  using assms(2)
proof (cases rule: loadTwitchPlayer_cases)
  case absent
  with assms(3) show ?thesis by simp
next
  case (present s1)
  let ?s2 = "s1\<lparr>containerRef := Some (container_html (playerId (now s)))\<rparr>"
  from destroy_current_clears(1) [OF assms(1) present(2)] have "live ?s2 = []"
    by (simp add: live_def)
  from try_create_live [OF this] have "set (live s') \<subseteq> {length (instances ?s2)}"
    unfolding present(3) .
  moreover from present(2) have "length (instances s1) = length (instances s)"
    by (auto elim!: destroy_current_cases)
  ultimately show ?thesis by simp
qed

section \<open>One live instance per widget\<close>

text \<open>
  \<^bold>\<open>C3.\<close> In every state that a widget reaches from its initial state, through any
  sequence of mounts, renders, configuration changes, unmounts, script settlements, SDK events,
  pointer events, timeouts and handle calls that raised no exception, at most one
  constructed instance is undestroyed, and it is the one \<open>playerRef\<close> holds. The
  destroy block and the cleanup leave no live instance and a cleared reference, and after
  \<open>loadTwitchPlayer\<close> ran with the container present the only instance that can be live is
  the one it has just constructed: every earlier one was destroyed first.
\<close>

theorem at_most_one_live_instance:
  assumes "run k evs (initial tw t0) = Inr s"
  shows "length (live s) \<le> 1 \<and> (\<forall>i \<in> set (live s). playerRef s = Some i)
    \<and> (\<forall>s1. destroy_current k s = Inr s1 \<longrightarrow> live s1 = [] \<and> playerRef s1 = None)
    \<and> (\<forall>s1. cleanup k s = Inr s1 \<longrightarrow> live s1 = [] \<and> playerRef s1 = None)
    \<and> (\<forall>p s1. loadTwitchPlayer k p s = Inr s1 \<longrightarrow> containerRef s \<noteq> None \<longrightarrow>
          (\<forall>i \<in> set (live s1). i = length (instances s)))"
proof -
  from assms have o: "owned s"
    by (rule reachable_owned)
  then have "length (live s) \<le> 1"
    by (rule owned_at_most_one)
  moreover from o have "\<forall>i \<in> set (live s). playerRef s = Some i"
    by (simp add: owned_def)
  moreover have "\<forall>s1. destroy_current k s = Inr s1 \<longrightarrow> live s1 = [] \<and> playerRef s1 = None"
    using destroy_current_clears [OF o] by blast
  moreover have "\<forall>s1. cleanup k s = Inr s1 \<longrightarrow> live s1 = [] \<and> playerRef s1 = None"
    using cleanup_clears [OF o] by blast
  moreover have "\<forall>p s1. loadTwitchPlayer k p s = Inr s1 \<longrightarrow> containerRef s \<noteq> None \<longrightarrow>
          (\<forall>i \<in> set (live s1). i = length (instances s))"
    using loadTwitchPlayer_live [OF o] by blast
  ultimately show ?thesis
    by blast
qed

theorem at_most_one_live_instance_witness:
  "run sdk_ok [Mount (channel_props ''abc''), SdkEvent 0 ''ready'', Render,
      Rerender (channel_props ''xyz'')] (initial True 7) = Inr demo_switched
   \<and> map destroyed (instances demo_switched) = [True, False]
   \<and> live demo_switched = [1] \<and> playerRef demo_switched = Some 1
   \<and> length (live demo_switched) \<le> 1"
proof -
  have r: "run sdk_ok [Mount (channel_props ''abc''), SdkEvent 0 ''ready'', Render,
      Rerender (channel_props ''xyz'')] (initial True 7) = Inr demo_switched"
    by (rule demo_run) simp
  have "live demo_switched = [1]"
    by (simp add: live_def demo_switched_instances upt_rec)
  with at_most_one_live_instance [OF r] r show ?thesis
    by (simp only: simp_thms demo_switched_fields)
qed

section \<open>What each operation leaves alone\<close>

lemma calls_only_frame:
  assumes "calls_only s s'"
  shows "phase s' = phase s \<and> props s' = props s \<and> rendered s' = rendered s \<and>
    containerRef s' = containerRef s \<and> playerRef s' = playerRef s \<and>
    isLoading s' = isLoading s \<and> error s' = error s \<and>
    isPlayerReady s' = isPlayerReady s \<and> isPaused s' = isPaused s \<and>
    showControls s' = showControls s \<and>
    hideControlsTimeoutRef s' = hideControlsTimeoutRef s \<and> twitch s' = twitch s \<and>
    head_scripts s' = head_scripts s \<and> now s' = now s \<and> timers s' = timers s \<and>
    next_timer s' = next_timer s \<and> console s' = console s \<and> host_log s' = host_log s"
  using assms by (auto elim!: calls_onlyE)

lemma destroy_current_frame:
  assumes "destroy_current k s = Inr s'"
  shows "phase s' = phase s \<and> props s' = props s \<and> rendered s' = rendered s \<and>
    containerRef s' = containerRef s \<and> isLoading s' = isLoading s \<and>
    error s' = error s \<and> isPaused s' = isPaused s \<and>
    showControls s' = showControls s \<and>
    hideControlsTimeoutRef s' = hideControlsTimeoutRef s \<and> twitch s' = twitch s \<and>
    head_scripts s' = head_scripts s \<and> now s' = now s \<and> timers s' = timers s \<and>
    next_timer s' = next_timer s \<and> console s' = console s \<and> host_log s' = host_log s
    \<and> length (instances s') = length (instances s)
    \<and> map elementId (instances s') = map elementId (instances s)"
  using assms by (auto elim!: destroy_current_cases simp: map_update_same)

lemma try_create_frame [simp]:
  "phase (try_create k p pid s) = phase s"
  "props (try_create k p pid s) = props s"
  "rendered (try_create k p pid s) = rendered s"
  "containerRef (try_create k p pid s) = containerRef s"
  "isPaused (try_create k p pid s) = isPaused s"
  "showControls (try_create k p pid s) = showControls s"
  "hideControlsTimeoutRef (try_create k p pid s) = hideControlsTimeoutRef s"
  "twitch (try_create k p pid s) = twitch s"
  "head_scripts (try_create k p pid s) = head_scripts s"
  "now (try_create k p pid s) = now s"
  "timers (try_create k p pid s) = timers s"
  "next_timer (try_create k p pid s) = next_timer s"
  "host_log (try_create k p pid s) = host_log s"
proof -
  have "phase (try_create k p pid s) = phase s \<and> props (try_create k p pid s) = props s \<and>
    rendered (try_create k p pid s) = rendered s \<and>
    containerRef (try_create k p pid s) = containerRef s \<and>
    isPaused (try_create k p pid s) = isPaused s \<and>
    showControls (try_create k p pid s) = showControls s \<and>
    hideControlsTimeoutRef (try_create k p pid s) = hideControlsTimeoutRef s \<and>
    twitch (try_create k p pid s) = twitch s \<and>
    head_scripts (try_create k p pid s) = head_scripts s \<and>
    now (try_create k p pid s) = now s \<and> timers (try_create k p pid s) = timers s \<and>
    next_timer (try_create k p pid s) = next_timer s \<and>
    host_log (try_create k p pid s) = host_log s"
  proof (cases rule: try_create_cases [of s k pid p])
    case threw
    then show ?thesis by simp
  next
    case (built X b)
    then show ?thesis by (cases b) simp_all
  qed
  then show "phase (try_create k p pid s) = phase s"
    and "props (try_create k p pid s) = props s"
    and "rendered (try_create k p pid s) = rendered s"
    and "containerRef (try_create k p pid s) = containerRef s"
    and "isPaused (try_create k p pid s) = isPaused s"
    and "showControls (try_create k p pid s) = showControls s"
    and "hideControlsTimeoutRef (try_create k p pid s) = hideControlsTimeoutRef s"
    and "twitch (try_create k p pid s) = twitch s"
    and "head_scripts (try_create k p pid s) = head_scripts s"
    and "now (try_create k p pid s) = now s"
    and "timers (try_create k p pid s) = timers s"
    and "next_timer (try_create k p pid s) = next_timer s"
    and "host_log (try_create k p pid s) = host_log s"
    by simp_all
qed

lemma loadTwitchPlayer_frame:
  assumes "loadTwitchPlayer k p s = Inr s'"
  shows "phase s' = phase s \<and> props s' = props s \<and> rendered s' = rendered s \<and>
    isPaused s' = isPaused s \<and> showControls s' = showControls s \<and>
    hideControlsTimeoutRef s' = hideControlsTimeoutRef s \<and> twitch s' = twitch s \<and>
    head_scripts s' = head_scripts s \<and> now s' = now s \<and> timers s' = timers s \<and>
    next_timer s' = next_timer s \<and> host_log s' = host_log s"
  using assms
proof (cases rule: loadTwitchPlayer_cases)
  case absent
  then show ?thesis by simp
next
  case (present s1)
  from destroy_current_frame [OF present(2)] show ?thesis
    unfolding present(3) by simp
qed

lemma effect_frame:
  assumes "effect k s = Inr s'"
  shows "phase s' = phase s \<and> props s' = props s \<and> rendered s' = rendered s \<and>
    isPaused s' = isPaused s \<and> showControls s' = showControls s \<and>
    hideControlsTimeoutRef s' = hideControlsTimeoutRef s \<and> twitch s' = twitch s \<and>
    now s' = now s \<and> timers s' = timers s \<and> next_timer s' = next_timer s \<and>
    host_log s' = host_log s"
proof (cases "twitch s")
  case True
  with assms have "loadTwitchPlayer k (props s) s = Inr s'"
    by (simp add: effect_def)
  from loadTwitchPlayer_frame [OF this] show ?thesis
    by simp
next
  case False
  with assms show ?thesis
    by (auto simp: effect_def)
qed

lemma cleanup_frame:
  assumes "cleanup k s = Inr s'"
  shows "phase s' = phase s \<and> props s' = props s \<and> rendered s' = rendered s \<and>
    containerRef s' = containerRef s \<and> isLoading s' = isLoading s \<and>
    error s' = error s \<and> isPaused s' = isPaused s \<and>
    showControls s' = showControls s \<and> twitch s' = twitch s \<and>
    head_scripts s' = head_scripts s \<and> now s' = now s \<and>
    next_timer s' = next_timer s \<and> console s' = console s \<and> host_log s' = host_log s
    \<and> length (instances s') = length (instances s)
    \<and> map elementId (instances s') = map elementId (instances s)"
  using destroy_current_frame [of k "clearHideTimeout s" s'] assms
  by (simp add: cleanup_def)

lemma script_loaded_frame:
  assumes "script_loaded k n s = Inr s'"
  shows "phase s' = phase s \<and> props s' = props s \<and> rendered s' = rendered s \<and>
    isPaused s' = isPaused s \<and> showControls s' = showControls s \<and>
    hideControlsTimeoutRef s' = hideControlsTimeoutRef s \<and> now s' = now s \<and>
    timers s' = timers s \<and> next_timer s' = next_timer s \<and> host_log s' = host_log s"
  using assms
proof (cases rule: script_loaded_shape)
  case stale
  then show ?thesis by simp
next
  case fresh
  from loadTwitchPlayer_frame [OF fresh(2)] show ?thesis
    by (simp add: settle_def)
qed

lemma sdk_emit_frame:
  assumes "sdk_emit k i ev s = Inr s'"
  shows "phase s' = phase s \<and> props s' = props s \<and> rendered s' = rendered s \<and>
    containerRef s' = containerRef s \<and> playerRef s' = playerRef s \<and>
    showControls s' = showControls s \<and>
    hideControlsTimeoutRef s' = hideControlsTimeoutRef s \<and> twitch s' = twitch s \<and>
    head_scripts s' = head_scripts s \<and> now s' = now s \<and> timers s' = timers s \<and>
    next_timer s' = next_timer s \<and> console s' = console s
    \<and> map elementId (instances s') = map elementId (instances s)
    \<and> map destroyed (instances s') = map destroyed (instances s)"
  using assms
proof (cases rule: sdk_emit_shape)
  case (ready h)
  then show ?thesis by simp
next
  case (other s1 p h)
  then show ?thesis
    by (auto elim!: calls_onlyE)
qed

lemma cleanup_timer_ok:
  assumes "timer_ok s" and "cleanup k s = Inr s'"
  shows "timer_ok s'"
proof -
  from assms(2) have d: "destroy_current k (clearHideTimeout s) = Inr s'"
    by (simp add: cleanup_def)
  from destroy_current_frame [OF d] have "timer_ok s' = timer_ok (clearHideTimeout s)"
    by (intro timer_ok_frame) simp_all
  with clearHideTimeout_ok(3) [OF assms(1)] show ?thesis
    by simp
qed

lemma effect_timer_ok:
  assumes "timer_ok s" and "effect k s = Inr s'"
  shows "timer_ok s'"
proof -
  from effect_frame [OF assms(2)] have "timer_ok s' = timer_ok s"
    by (intro timer_ok_frame) simp_all
  with assms(1) show ?thesis by simp
qed

lemma handle_timer_ok:
  assumes "timer_ok s" and "handle k e s = Inr s'"
  shows "timer_ok s'"
proof (cases e)
  case (Mount p)
  show ?thesis
  proof (cases "phase s = NotMounted")
    case True
    have "timer_ok (commit (s\<lparr>phase := Mounted, props := p\<rparr>)) = timer_ok s"
      by (rule timer_ok_frame) simp_all
    with assms(1) have "timer_ok (commit (s\<lparr>phase := Mounted, props := p\<rparr>))"
      by simp
    moreover from assms(2) Mount True
    have "effect k (commit (s\<lparr>phase := Mounted, props := p\<rparr>)) = Inr s'"
      by simp
    ultimately show ?thesis
      by (rule effect_timer_ok)
  next
    case False
    with assms Mount show ?thesis by simp
  qed
next
  case (Rerender p)
  show ?thesis
  proof (cases "phase s = Mounted")
    case True
    with assms(2) Rerender obtain s1 where c: "cleanup k (commit (s\<lparr>props := p\<rparr>)) = Inr s1"
      and e: "effect k s1 = Inr s'"
      by auto
    have "timer_ok (commit (s\<lparr>props := p\<rparr>)) = timer_ok s"
      by (rule timer_ok_frame) simp_all
    with assms(1) have "timer_ok (commit (s\<lparr>props := p\<rparr>))"
      by simp
    then have "timer_ok s1"
      using c by (rule cleanup_timer_ok)
    then show ?thesis
      using e by (rule effect_timer_ok)
  next
    case False
    with assms Rerender show ?thesis by simp
  qed
next
  case Render
  with assms(2) have "timer_ok s' = timer_ok s"
    by (intro timer_ok_frame) auto
  with assms(1) show ?thesis by simp
next
  case Unmount
  show ?thesis
  proof (cases "phase s = Mounted")
    case True
    with assms(2) Unmount
    have c: "cleanup k (s\<lparr>phase := Unmounted, containerRef := None\<rparr>) = Inr s'"
      by simp
    have "timer_ok (s\<lparr>phase := Unmounted, containerRef := None\<rparr>) = timer_ok s"
      by (rule timer_ok_frame) simp_all
    with assms(1) have "timer_ok (s\<lparr>phase := Unmounted, containerRef := None\<rparr>)"
      by simp
    then show ?thesis
      using c by (rule cleanup_timer_ok)
  next
    case False
    with assms Unmount show ?thesis by simp
  qed
next
  case (ScriptLoaded n)
  with assms(2) have "script_loaded k n s = Inr s'"
    by simp
  from script_loaded_frame [OF this] have "timer_ok s' = timer_ok s"
    by (intro timer_ok_frame) simp_all
  with assms(1) show ?thesis by simp
next
  case (ScriptFailed n)
  with assms(2) have "timer_ok s' = timer_ok s"
    by (intro timer_ok_frame) (auto simp: script_failed_def script_onerror_def settle_def)
  with assms(1) show ?thesis by simp
next
  case (SdkEvent i ev)
  with assms(2) have "sdk_emit k i ev s = Inr s'"
    by simp
  from sdk_emit_frame [OF this] have "timer_ok s' = timer_ok s"
    by (intro timer_ok_frame) simp_all
  with assms(1) show ?thesis by simp
next
  case (SdkChange i pb)
  with assms(2) have "timer_ok s' = timer_ok s"
    by (intro timer_ok_frame) (auto simp: sdk_change_def)
  with assms(1) show ?thesis by simp
next
  case MouseMove
  with assms show ?thesis
    by (auto simp: handleMouseActivity_ok(5) split: if_splits)
next
  case Click
  with assms show ?thesis
    by (auto simp: handleMouseActivity_ok(5) split: if_splits)
next
  case MouseLeave
  with assms show ?thesis
    by (auto simp: handleMouseLeave_ok(4) split: if_splits)
next
  case ButtonClick
  show ?thesis
  proof (cases "surface_rendered s \<and> shown_isPlayerReady (rendered s)")
    case True
    with assms(2) ButtonClick obtain s1 where h: "handlePlayPause k s = Inr s1"
      and s': "s' = handleMouseActivity s1"
      by auto
    from h obtain s0 where co: "calls_only s s0" and s1: "s1 = handleMouseActivity s0"
      by (rule handlePlayPause_shape)
    from calls_only_frame [OF co] have "timer_ok s0 = timer_ok s"
      by (intro timer_ok_frame) simp_all
    with assms(1) have "timer_ok s0"
      by simp
    then have "timer_ok s1"
      unfolding s1 by (rule handleMouseActivity_ok(5))
    then show ?thesis
      unfolding s' by (rule handleMouseActivity_ok(5))
  next
    case False
    with assms ButtonClick show ?thesis by auto
  qed
next
  case (Elapse d)
  with assms show ?thesis
    by (auto simp: elapse_ok)
next
  case (Call c)
  show ?thesis
  proof (cases "phase s = Mounted")
    case True
    with assms(2) Call obtain v where "call_ref k c s = Inr (v, s')"
      by auto
    then have "calls_only s s'"
      by (rule call_ref_calls_only)
    from calls_only_frame [OF this] have "timer_ok s' = timer_ok s"
      by (intro timer_ok_frame) simp_all
    with assms(1) show ?thesis by simp
  next
    case False
    with assms Call show ?thesis by simp
  qed
qed

lemma initial_timer_ok: "timer_ok (initial tw t0)"
  by (simp add: timer_ok_def initial_def)

lemma reachable_timer_ok:
  assumes "run k evs (initial tw t0) = Inr s"
  shows "timer_ok s"
  using initial_timer_ok handle_timer_ok assms by (rule run_invariant)

lemma idle_before_due:
  assumes "timers s = [(i, now s + 3000)]" and "showControls s" and "sum_list ds < 3000"
  shows "showControls (fold elapse ds s)" and "timers (fold elapse ds s) = [(i, now s + 3000)]"
  using assms by (simp_all add: fold_elapse)

lemma idle_after_due:
  assumes "timers s = [(i, now s + 3000)]" and "3000 \<le> sum_list ds"
  shows "\<not> showControls (fold elapse ds s)" and "timers (fold elapse ds s) = []"
    and "hideControlsTimeoutRef (fold elapse ds s) = None"
proof -
  from assms(2) have "ds \<noteq> []"
    by auto
  with assms show "\<not> showControls (fold elapse ds s)" and "timers (fold elapse ds s) = []"
    and "hideControlsTimeoutRef (fold elapse ds s) = None"
    by (simp_all add: fold_elapse)
qed

lemma idle_after_leave:
  assumes "timers s = []" and "\<not> showControls s"
  shows "\<not> showControls (fold elapse ds s)" and "timers (fold elapse ds s) = []"
  using assms by (simp_all add: fold_elapse)



section \<open>Failures\<close>

lemma errored_current [simp]:
  "errored (current s) = (case error s of None \<Rightarrow> False | Some msg \<Rightarrow> msg \<noteq> [])"
  by (simp add: errored_def current_def)

lemma exclusive_frame:
  assumes "error s' = error s" and "isPlayerReady s' = isPlayerReady s"
    and "rendered s' = rendered s"
  shows "exclusive s' = exclusive s"
  using assms by (simp add: exclusive_def)

lemma exclusive_not_ready:
  assumes "exclusive s" and "\<not> isPlayerReady s'" and "rendered s' = rendered s"
  shows "exclusive s'"
  using assms by (simp add: exclusive_def)

lemma destroy_current_exclusive:
  assumes "exclusive s" and "destroy_current k s = Inr s'"
  shows "exclusive s'"
  using assms(2)
proof (cases rule: destroy_current_cases)
  case none
  with assms(1) show ?thesis by simp
next
  case (some i)
  show ?thesis
    unfolding some(3) by (rule exclusive_not_ready [OF assms(1)]) simp_all
qed

lemma try_create_exclusive:
  assumes "exclusive s"
  shows "exclusive (try_create k p pid s)"
proof (cases rule: try_create_cases [of s k pid p])
  case threw
  show ?thesis
    unfolding threw(2) by (rule exclusive_not_ready [OF assms]) (simp_all add: catch_handler_def)
next
  case (built X b)
  show ?thesis
  proof (cases b)
    case True
    with built(5) have "try_create k p pid s
        = catch_handler (s\<lparr>playerRef := Some (length (instances s)), instances := X\<rparr>)"
      by simp
    then show ?thesis
      by (simp only:) (rule exclusive_not_ready [OF assms], simp_all add: catch_handler_def)
  next
    case False
    with built(5) have "try_create k p pid s
        = s\<lparr>playerRef := Some (length (instances s)), instances := X\<rparr>"
      by simp
    then have "exclusive (try_create k p pid s) = exclusive s"
      by (simp only:) (rule exclusive_frame, simp_all)
    with assms show ?thesis by simp
  qed
qed

lemma loadTwitchPlayer_exclusive:
  assumes "exclusive s" and "loadTwitchPlayer k p s = Inr s'"
  shows "exclusive s'"
  using assms(2)
proof (cases rule: loadTwitchPlayer_cases)
  case absent
  with assms(1) show ?thesis by simp
next
  case (present s1)
  have "exclusive (s1\<lparr>containerRef := Some (container_html (playerId (now s)))\<rparr>)
      = exclusive s1"
    by (rule exclusive_frame) simp_all
  with destroy_current_exclusive [OF assms(1) present(2)]
  have "exclusive (s1\<lparr>containerRef := Some (container_html (playerId (now s)))\<rparr>)"
    by simp
  then show ?thesis
    unfolding present(3) by (rule try_create_exclusive)
qed

lemma effect_exclusive:
  assumes "exclusive s" and "effect k s = Inr s'"
  shows "exclusive s'"
proof (cases "twitch s")
  case True
  with assms(2) have "loadTwitchPlayer k (props s) s = Inr s'"
    by (simp add: effect_def)
  with assms(1) show ?thesis
    by (rule loadTwitchPlayer_exclusive)
next
  case False
  with assms(2) have "exclusive s' = exclusive s"
    by (intro exclusive_frame) (auto simp: effect_def)
  with assms(1) show ?thesis by simp
qed

lemma cleanup_exclusive:
  assumes "exclusive s" and "cleanup k s = Inr s'"
  shows "exclusive s'"
proof -
  have "exclusive (clearHideTimeout s) = exclusive s"
    by (rule exclusive_frame) simp_all
  with assms(1) have "exclusive (clearHideTimeout s)"
    by simp
  then show ?thesis
    using assms(2) unfolding cleanup_def by (rule destroy_current_exclusive)
qed

lemma commit_exclusive:
  assumes "exclusive s"
  shows "exclusive (commit s)"
  using assms by (simp add: exclusive_def current_def errored_def)

lemma handle_exclusive:
  assumes "exclusive s" and "handle k e s = Inr s'"
  shows "exclusive s'"
proof (cases e)
  case (Mount p)
  show ?thesis
  proof (cases "phase s = NotMounted")
    case True
    have "exclusive (s\<lparr>phase := Mounted, props := p\<rparr>) = exclusive s"
      by (rule exclusive_frame) simp_all
    with assms(1) have "exclusive (commit (s\<lparr>phase := Mounted, props := p\<rparr>))"
      by (simp add: commit_exclusive)
    moreover from assms(2) Mount True
    have "effect k (commit (s\<lparr>phase := Mounted, props := p\<rparr>)) = Inr s'"
      by simp
    ultimately show ?thesis
      by (rule effect_exclusive)
  next
    case False
    with assms Mount show ?thesis by simp
  qed
next
  case (Rerender p)
  show ?thesis
  proof (cases "phase s = Mounted")
    case True
    with assms(2) Rerender obtain s1 where c: "cleanup k (commit (s\<lparr>props := p\<rparr>)) = Inr s1"
      and e: "effect k s1 = Inr s'"
      by auto
    have "exclusive (s\<lparr>props := p\<rparr>) = exclusive s"
      by (rule exclusive_frame) simp_all
    with assms(1) have "exclusive (commit (s\<lparr>props := p\<rparr>))"
      by (simp add: commit_exclusive)
    then have "exclusive s1"
      using c by (rule cleanup_exclusive)
    then show ?thesis
      using e by (rule effect_exclusive)
  next
    case False
    with assms Rerender show ?thesis by simp
  qed
next
  case Render
  with assms show ?thesis
    by (auto simp: commit_exclusive split: if_splits)
next
  case Unmount
  show ?thesis
  proof (cases "phase s = Mounted")
    case True
    with assms(2) Unmount
    have c: "cleanup k (s\<lparr>phase := Unmounted, containerRef := None\<rparr>) = Inr s'"
      by simp
    have "exclusive (s\<lparr>phase := Unmounted, containerRef := None\<rparr>) = exclusive s"
      by (rule exclusive_frame) simp_all
    with assms(1) have "exclusive (s\<lparr>phase := Unmounted, containerRef := None\<rparr>)"
      by simp
    then show ?thesis
      using c by (rule cleanup_exclusive)
  next
    case False
    with assms Unmount show ?thesis by simp
  qed
next
  case (ScriptLoaded n)
  with assms(2) have "script_loaded k n s = Inr s'"
    by simp
  then show ?thesis
  proof (cases rule: script_loaded_shape)
    case stale
    with assms(1) show ?thesis by simp
  next
    case fresh
    have "exclusive ((settle n s)\<lparr>twitch := True\<rparr>) = exclusive s"
      by (rule exclusive_frame) (simp_all add: settle_def)
    with assms(1) have "exclusive ((settle n s)\<lparr>twitch := True\<rparr>)"
      by simp
    then show ?thesis
      using fresh(2) by (rule loadTwitchPlayer_exclusive)
  qed
next
  case (ScriptFailed n)
  show ?thesis
  proof (cases "pending n s")
    case True
    with assms(2) ScriptFailed have "s' = script_onerror (settle n s)"
      by (simp add: script_failed_def)
    then show ?thesis
      by (simp only:)
        (rule exclusive_not_ready [OF assms(1)], simp_all add: script_onerror_def settle_def)
  next
    case False
    with assms ScriptFailed show ?thesis
      by (simp add: script_failed_def)
  qed
next
  case (SdkEvent i ev)
  with assms(2) have "sdk_emit k i ev s = Inr s'"
    by simp
  then show ?thesis
  proof (cases rule: sdk_emit_shape)
    case (ready h)
    with assms(1) show ?thesis
      by (simp add: exclusive_def)
  next
    case (other s1 p h)
    from calls_only_frame [OF other(1)] other(2) have "exclusive s' = exclusive s"
      by (intro exclusive_frame) simp_all
    with assms(1) show ?thesis by simp
  qed
next
  case (SdkChange i pb)
  with assms(2) have "exclusive s' = exclusive s"
    by (intro exclusive_frame) (auto simp: sdk_change_def split: if_splits)
  with assms(1) show ?thesis by simp
next
  case MouseMove
  with assms(2) have "exclusive s' = exclusive s"
    by (intro exclusive_frame) (auto split: if_splits)
  with assms(1) show ?thesis by simp
next
  case Click
  with assms(2) have "exclusive s' = exclusive s"
    by (intro exclusive_frame) (auto split: if_splits)
  with assms(1) show ?thesis by simp
next
  case MouseLeave
  with assms(2) have "exclusive s' = exclusive s"
    by (intro exclusive_frame) (auto split: if_splits)
  with assms(1) show ?thesis by simp
next
  case ButtonClick
  show ?thesis
  proof (cases "surface_rendered s \<and> shown_isPlayerReady (rendered s)")
    case True
    with assms(2) ButtonClick obtain s1 where h: "handlePlayPause k s = Inr s1"
      and s': "s' = handleMouseActivity s1"
      by auto
    from h obtain s0 where co: "calls_only s s0" and s1: "s1 = handleMouseActivity s0"
      by (rule handlePlayPause_shape)
    from calls_only_frame [OF co] have "exclusive s' = exclusive s"
      unfolding s' s1 by (intro exclusive_frame) simp_all
    with assms(1) show ?thesis by simp
  next
    case False
    with assms ButtonClick show ?thesis by auto
  qed
next
  case (Elapse d)
  with assms(2) have "exclusive s' = exclusive s"
    by (intro exclusive_frame) (auto split: if_splits)
  with assms(1) show ?thesis by simp
next
  case (Call c)
  show ?thesis
  proof (cases "phase s = Mounted")
    case True
    with assms(2) Call obtain v where "call_ref k c s = Inr (v, s')"
      by auto
    then have "calls_only s s'"
      by (rule call_ref_calls_only)
    from calls_only_frame [OF this] have "exclusive s' = exclusive s"
      by (intro exclusive_frame) simp_all
    with assms(1) show ?thesis by simp
  next
    case False
    with assms Call show ?thesis by simp
  qed
qed

lemma initial_exclusive: "exclusive (initial tw t0)"
  by (simp add: exclusive_def initial_def errored_def)

lemma reachable_exclusive:
  assumes "run k evs (initial tw t0) = Inr s"
  shows "exclusive s"
  using initial_exclusive handle_exclusive assms by (rule run_invariant)

lemma render_by_error:
  "render r = (if errored r then ErrorView (''Error: '' @ the (shown_error r)) else player_view r)"
  by (simp add: render_def errored_def split: option.splits)

lemma commit_errored:
  assumes "errored (current s)"
  shows "containerRef (commit s) = None"
    and "render (rendered (commit s)) = ErrorView (''Error: '' @ the (error s))"
  using assms
  by (simp_all add: commit_def render_by_error current_def errored_def split: option.splits)

lemma try_create_threw:
  assumes "\<not> twitch s \<or> Player k pid (options_of p) = None"
  shows "try_create k p pid s = catch_handler s"
  using assms by (auto simp: try_create_def new_Player_def)

lemma script_failure:
  assumes "pending n s"
  shows "error (script_failed n s) = Some ''Failed to load Twitch embed script''"
    and "\<not> isPlayerReady (script_failed n s)" and "\<not> isLoading (script_failed n s)"
    and "errored (current (script_failed n s))"
    and "instances (script_failed n s) = instances s"
    and "playerRef (script_failed n s) = playerRef s"
    and "timers (script_failed n s) = timers s"
    and "map src (head_scripts (script_failed n s)) = map src (head_scripts s)"
    and "\<not> pending n (script_failed n s)"
  using assms
  by (simp_all add: script_failed_def script_onerror_def settle_def pending_def map_update_same)

lemma constructor_failure:
  assumes "containerRef s \<noteq> None"
    and "\<not> twitch s \<or> Player k (playerId (now s)) (options_of p) = None"
    and "loadTwitchPlayer k p s = Inr s'"
  shows "error s' = Some ''Failed to initialize Twitch player''"
    and "\<not> isPlayerReady s'" and "\<not> isLoading s'" and "errored (current s')"
    and "playerRef s' = None"
    and "length (instances s') = length (instances s)"
    and "\<forall>j. playerRef s \<noteq> Some j \<longrightarrow> instances s' ! j = instances s ! j"
    and "\<forall>j. playerRef s = Some j \<longrightarrow> instances s' ! j = note_call Destroy (instances s ! j)"
    and "timers s' = timers s" and "head_scripts s' = head_scripts s"
proof -
  from assms(3) obtain s1 where d: "destroy_current k s = Inr s1"
    and s': "s' = try_create k p (playerId (now s))
                  (s1\<lparr>containerRef := Some (container_html (playerId (now s)))\<rparr>)"
    using assms(1) by (auto elim!: loadTwitchPlayer_cases)
  from destroy_current_frame [OF d] have tw: "twitch s1 = twitch s"
    by simp
  with assms(2) have s'': "s' = catch_handler
      (s1\<lparr>containerRef := Some (container_html (playerId (now s)))\<rparr>)"
    unfolding s' by (intro try_create_threw) simp
  show "error s' = Some ''Failed to initialize Twitch player''"
    and "\<not> isPlayerReady s'" and "\<not> isLoading s'" and "errored (current s')"
    unfolding s'' by (simp_all add: catch_handler_def)
  from d show "playerRef s' = None" and "length (instances s') = length (instances s)"
    and "\<forall>j. playerRef s \<noteq> Some j \<longrightarrow> instances s' ! j = instances s ! j"
    and "\<forall>j. playerRef s = Some j \<longrightarrow> instances s' ! j = note_call Destroy (instances s ! j)"
    unfolding s'' by (auto elim!: destroy_current_cases)
  from destroy_current_frame [OF d] show "timers s' = timers s"
    and "head_scripts s' = head_scripts s"
    unfolding s'' by simp_all
qed

lemma calls_only_length:
  assumes "calls_only s s'"
  shows "length (instances s') = length (instances s)"
  using assms by (auto elim!: calls_onlyE dest: map_eq_imp_length_eq)

lemma effect_detached:
  assumes "containerRef s = None" and "effect k s = Inr s'"
  shows "instances s' = instances s" and "containerRef s' = None" and "error s' = error s"
  using assms by (auto simp: effect_def loadTwitchPlayer_def split: if_splits)

lemma script_loaded_detached:
  assumes "containerRef s = None" and "script_loaded k n s = Inr s'"
  shows "instances s' = instances s" and "containerRef s' = None" and "error s' = error s"
  using assms
  by (auto simp: script_loaded_def loadTwitchPlayer_def settle_def split: if_splits)

lemma no_attempt_while_errored:
  assumes "errored (current s)" and "containerRef s = None" and "phase s \<noteq> NotMounted"
    and "handle k e s = Inr s'"
  shows "length (instances s') = length (instances s) \<and> containerRef s' = None"
proof (cases e)
  case (Mount p)
  with assms show ?thesis by simp
next
  case (Rerender p)
  show ?thesis
  proof (cases "phase s = Mounted")
    case True
    let ?c = "commit (s\<lparr>props := p\<rparr>)"
    from True assms(4) Rerender obtain s1 where c: "cleanup k ?c = Inr s1"
      and e: "effect k s1 = Inr s'"
      by auto
    from assms(1) have "errored (current (s\<lparr>props := p\<rparr>))"
      by simp
    then have "containerRef ?c = None"
      by (rule commit_errored)
    with cleanup_frame [OF c] have "containerRef s1 = None"
      and "length (instances s1) = length (instances s)"
      by simp_all
    with effect_detached [OF _ e] show ?thesis
      by simp
  next
    case False
    with assms Rerender show ?thesis by simp
  qed
next
  case Render
  with assms show ?thesis
    by (auto simp: commit_errored split: if_splits)
next
  case Unmount
  show ?thesis
  proof (cases "phase s = Mounted")
    case True
    with assms(4) Unmount
    have "cleanup k (s\<lparr>phase := Unmounted, containerRef := None\<rparr>) = Inr s'"
      by simp
    from cleanup_frame [OF this] show ?thesis
      by simp
  next
    case False
    with assms Unmount show ?thesis by simp
  qed
next
  case (ScriptLoaded n)
  with assms(4) have "script_loaded k n s = Inr s'"
    by simp
  from script_loaded_detached [OF assms(2) this] show ?thesis
    by simp
next
  case (ScriptFailed n)
  with assms show ?thesis
    by (auto simp: script_failed_def script_onerror_def settle_def)
next
  case (SdkEvent i ev)
  with assms(4) have "sdk_emit k i ev s = Inr s'"
    by simp
  from sdk_emit_frame [OF this] have "length (map elementId (instances s'))
      = length (map elementId (instances s))" and "containerRef s' = containerRef s"
    by simp_all
  with assms(2) show ?thesis
    by simp
next
  case (SdkChange i pb)
  with assms show ?thesis
    by (auto simp: sdk_change_def)
next
  case MouseMove
  with assms show ?thesis
    by (auto split: if_splits)
next
  case Click
  with assms show ?thesis
    by (auto split: if_splits)
next
  case MouseLeave
  with assms show ?thesis
    by (auto split: if_splits)
next
  case ButtonClick
  show ?thesis
  proof (cases "surface_rendered s \<and> shown_isPlayerReady (rendered s)")
    case True
    with assms(4) ButtonClick obtain s1 where h: "handlePlayPause k s = Inr s1"
      and s': "s' = handleMouseActivity s1"
      by auto
    from h obtain s0 where co: "calls_only s s0" and s1: "s1 = handleMouseActivity s0"
      by (rule handlePlayPause_shape)
    from calls_only_length [OF co] calls_only_frame [OF co] assms(2) show ?thesis
      unfolding s' s1 by simp
  next
    case False
    with assms ButtonClick show ?thesis by auto
  qed
next
  case (Elapse d)
  with assms show ?thesis by auto
next
  case (Call c)
  show ?thesis
  proof (cases "phase s = Mounted")
    case True
    with assms(4) Call obtain v where "call_ref k c s = Inr (v, s')"
      by auto
    then have co: "calls_only s s'"
      by (rule call_ref_calls_only)
    from calls_only_length [OF co] calls_only_frame [OF co] assms(2) show ?thesis
      by simp
  next
    case False
    with assms Call show ?thesis by simp
  qed
qed

text \<open>
  \<^bold>\<open>C10.\<close> Both failures end in the error state and nothing tries again.
  When a pending script fails, \<^verbatim>\<open>onerror\<close> sets the error message and clears readiness;
  the next render returns the error surface with that message; no instance, timeout or
  script is added and the script cannot settle again. When the constructor throws inside
  \<open>loadTwitchPlayer\<close> (or the global is missing), the \<^verbatim>\<open>catch\<close> block sets the error
  message and clears readiness, the next render returns the error surface, the reference is
  \<^verbatim>\<open>null\<close>, no instance was added and no instance other than the one owned before was
  touched, so nothing half constructed is destroyed; the methods of the handle stay
  silent no-ops, for every SDK, before and after that render. In every state the widget
  reaches, the error surface and readiness exclude each other, both in the state and in
  what the last render showed. While the error surface is shown (container detached),
  no event of a mounted or unmounted widget constructs an instance or attaches the
  container again.
\<close>

theorem failures_are_terminal:
  "(pending n s \<longrightarrow>
      error (script_failed n s) = Some ''Failed to load Twitch embed script''
      \<and> \<not> isPlayerReady (script_failed n s)
      \<and> render (rendered (commit (script_failed n s)))
          = ErrorView ''Error: Failed to load Twitch embed script''
      \<and> instances (script_failed n s) = instances s
      \<and> timers (script_failed n s) = timers s
      \<and> map src (head_scripts (script_failed n s)) = map src (head_scripts s)
      \<and> \<not> pending n (script_failed n s))
   \<and> (containerRef s \<noteq> None
        \<and> (\<not> twitch s \<or> Player k (playerId (now s)) (options_of p) = None)
        \<and> loadTwitchPlayer k p s = Inr s' \<longrightarrow>
      error s' = Some ''Failed to initialize Twitch player''
      \<and> \<not> isPlayerReady s'
      \<and> render (rendered (commit s')) = ErrorView ''Error: Failed to initialize Twitch player''
      \<and> playerRef s' = None
      \<and> length (instances s') = length (instances s)
      \<and> (\<forall>j. playerRef s \<noteq> Some j \<longrightarrow> instances s' ! j = instances s ! j)
      \<and> timers s' = timers s \<and> head_scripts s' = head_scripts s
      \<and> (\<forall>k'. ref_play k' s' = Inr s' \<and> ref_seek k' t s' = Inr s'
             \<and> ref_getVolume k' s' = Inr (0, s')
             \<and> ref_play k' (commit s') = Inr (commit s')))
   \<and> (run k evs (initial tw t0) = Inr s \<longrightarrow>
        \<not> (errored (current s) \<and> isPlayerReady s)
        \<and> \<not> (errored (rendered s) \<and> ref_isReady s))
   \<and> (errored (current s) \<and> containerRef s = None \<and> phase s \<noteq> NotMounted
        \<and> handle k e s = Inr s'' \<longrightarrow>
        length (instances s'') = length (instances s) \<and> containerRef s'' = None)"
proof (intro conjI impI)
  assume p: "pending n s"
  from script_failure [OF p]
  show "error (script_failed n s) = Some ''Failed to load Twitch embed script''"
    and "\<not> isPlayerReady (script_failed n s)"
    and "instances (script_failed n s) = instances s"
    and "timers (script_failed n s) = timers s"
    and "map src (head_scripts (script_failed n s)) = map src (head_scripts s)"
    and "\<not> pending n (script_failed n s)"
    by simp_all
  from commit_errored(2) [OF script_failure(4) [OF p]] script_failure(1) [OF p]
  show "render (rendered (commit (script_failed n s)))
          = ErrorView ''Error: Failed to load Twitch embed script''"
    by simp
next
  assume "containerRef s \<noteq> None
        \<and> (\<not> twitch s \<or> Player k (playerId (now s)) (options_of p) = None)
        \<and> loadTwitchPlayer k p s = Inr s'"
  then have h: "containerRef s \<noteq> None"
    "\<not> twitch s \<or> Player k (playerId (now s)) (options_of p) = None"
    "loadTwitchPlayer k p s = Inr s'"
    by simp_all
  note c = constructor_failure [OF h]
  from c show "error s' = Some ''Failed to initialize Twitch player''"
    and "\<not> isPlayerReady s'" and "playerRef s' = None"
    and "length (instances s') = length (instances s)"
    and "\<forall>j. playerRef s \<noteq> Some j \<longrightarrow> instances s' ! j = instances s ! j"
    and "timers s' = timers s" and "head_scripts s' = head_scripts s"
    by simp_all
  from commit_errored(2) [OF c(4)] c(1)
  show "render (rendered (commit s')) = ErrorView ''Error: Failed to initialize Twitch player''"
    by simp
  from c(5) have g: "\<not> guard s'" "\<not> guard (commit s')"
    by (simp_all add: guard_def)
  show "\<forall>k'. ref_play k' s' = Inr s' \<and> ref_seek k' t s' = Inr s'
             \<and> ref_getVolume k' s' = Inr (0, s')
             \<and> ref_play k' (commit s') = Inr (commit s')"
    using unguarded_mutators [OF g(1)] unguarded_accessors [OF g(1)]
      unguarded_mutators [OF g(2)]
    by simp
next
  assume "run k evs (initial tw t0) = Inr s"
  then have "exclusive s"
    by (rule reachable_exclusive)
  then show "\<not> (errored (current s) \<and> isPlayerReady s)"
    and "\<not> (errored (rendered s) \<and> ref_isReady s)"
    by (simp_all add: exclusive_def ref_isReady_def)
next
  assume "errored (current s) \<and> containerRef s = None \<and> phase s \<noteq> NotMounted
        \<and> handle k e s = Inr s''"
  then have "length (instances s'') = length (instances s) \<and> containerRef s'' = None"
    by (intro no_attempt_while_errored [of s k e s'']) simp_all
  then show "length (instances s'') = length (instances s)" and "containerRef s'' = None"
    by simp_all
qed

theorem failures_are_terminal_witness:
  "pending 0 demo_waiting
   \<and> error (script_failed 0 demo_waiting) = Some ''Failed to load Twitch embed script''
   \<and> render (rendered (commit (script_failed 0 demo_waiting)))
       = ErrorView ''Error: Failed to load Twitch embed script''
   \<and> pending 0 (script_failed 0 demo_waiting) = False
   \<and> run sdk_broken [Mount (channel_props ''abc'')] (initial True 7) = Inr demo_failed
   \<and> error demo_failed = Some ''Failed to initialize Twitch player''
   \<and> playerRef demo_failed = None \<and> instances demo_failed = []
   \<and> render (rendered (commit demo_failed))
       = ErrorView ''Error: Failed to initialize Twitch player''
   \<and> ref_play sdk_strict demo_failed = Inr demo_failed
   \<and> isPlayerReady demo_failed = False
   \<and> handle sdk_ok (Rerender (channel_props ''xyz'')) (commit demo_failed)
       = Inr ((commit demo_failed)\<lparr>props := channel_props ''xyz''\<rparr>)
   \<and> instances ((commit demo_failed)\<lparr>props := channel_props ''xyz''\<rparr>) = []"
proof -
  note T = failures_are_terminal
  have p: "pending 0 demo_waiting"
    by (simp add: pending_def demo_waiting_def)
  with T [where n = 0 and s = demo_waiting]
  have a: "error (script_failed 0 demo_waiting) = Some ''Failed to load Twitch embed script''"
    "render (rendered (commit (script_failed 0 demo_waiting)))
       = ErrorView ''Error: Failed to load Twitch embed script''"
    "pending 0 (script_failed 0 demo_waiting) = False"
    by simp_all
  let ?m = "commit ((initial True 7)\<lparr>phase := Mounted, props := channel_props ''abc''\<rparr>)"
  have l: "loadTwitchPlayer sdk_broken (channel_props ''abc'') ?m = Inr demo_failed"
    using failed_demo by (simp add: effect_def initial_def)
  have c: "containerRef ?m \<noteq> None"
    "Player sdk_broken (playerId (now ?m)) (options_of (channel_props ''abc'')) = None"
    by (simp_all add: commit_def current_def render_def player_view_def initial_def
        sdk_broken_def)
  from T [where s = ?m and k = sdk_broken and p = "channel_props ''abc''"
      and s' = demo_failed] l c
  have b: "error demo_failed = Some ''Failed to initialize Twitch player''"
    "playerRef demo_failed = None"
    "render (rendered (commit demo_failed))
       = ErrorView ''Error: Failed to initialize Twitch player''"
    "ref_play sdk_strict demo_failed = Inr demo_failed"
    by simp_all
  have r: "run sdk_broken [Mount (channel_props ''abc'')] (initial True 7) = Inr demo_failed"
    by (simp only: run.simps failed_demo then_do_simps)
  with T [where s = demo_failed and k = sdk_broken
      and evs = "[Mount (channel_props ''abc'')]" and tw = True and ?t0.0 = 7] b(1)
  have d: "isPlayerReady demo_failed = False"
    by (simp add: errored_def current_def)
  have i: "instances demo_failed = []"
    by (simp add: demo_failed_def initial_def)
  have e: "handle sdk_ok (Rerender (channel_props ''xyz'')) (commit demo_failed)
       = Inr ((commit demo_failed)\<lparr>props := channel_props ''xyz''\<rparr>)"
    by (simp add: cleanup_def clearHideTimeout_def destroy_current_def effect_def
        loadTwitchPlayer_def commit_def current_def render_def player_view_def
        demo_failed_def initial_def)
  have f: "errored (current (commit demo_failed))" "containerRef (commit demo_failed) = None"
    "phase (commit demo_failed) \<noteq> NotMounted"
    by (simp_all add: commit_def current_def render_def player_view_def errored_def
        demo_failed_def initial_def del: errored_current)
  from T [where s = "commit demo_failed" and k = sdk_ok
      and e = "Rerender (channel_props ''xyz'')"
      and s'' = "(commit demo_failed)\<lparr>props := channel_props ''xyz''\<rparr>"] e f i
  have "instances ((commit demo_failed)\<lparr>props := channel_props ''xyz''\<rparr>) = []"
    by simp
  with p a r b d i e show ?thesis
    by (simp only: simp_thms)
qed

end
